theory Spec2Isabelle
  imports Complex_Main
begin

section \<open>Errors\<close>

text \<open>
  Every \<^verbatim>\<open>throw\<close> of the sources is a value of this type; a function that can throw
  returns \<open>error + 'a\<close> with \<open>Inl\<close> for the exception.
\<close>

datatype error =
    DimensionMismatch      \<comment> \<open>"Vectors must have the same dimension for dot product."\<close>
  | InvalidTableName       \<comment> \<open>"Invalid table name provided ..."\<close>
  | DataNotObject          \<comment> \<open>"Data to insert must be an object."\<close>
  | DataHasId              \<comment> \<open>"Input data should not contain an 'id' property ..."\<close>
  | InputNotArray          \<comment> \<open>"Input data must be an array of objects."\<close>
  | EmbeddingFailed        \<comment> \<open>"Failed to generate embedding(s): ..."\<close>
  | PdfReadFailed          \<comment> \<open>"Could not read PDF file: ..."\<close>
  | PdfParseFailed         \<comment> \<open>"Could not parse PDF content: ..."\<close>
  | NoTextContent          \<comment> \<open>"PDF contains no text content."\<close>
  | NotAFunction           \<comment> \<open>TypeError: data.hasOwnProperty is not a function\<close>
  | WriteFailed            \<comment> \<open>the error of fs.writeFile, thrown again by _writeTable\<close>

section \<open>Vector utilities (lib/vectorUtils)\<close>

text \<open>
  JavaScript numbers are idealised as real numbers: no rounding, overflow or NaN.
  The two \<^verbatim>\<open>for\<close> loops run an index from 0 up to the length of the first vector.
\<close>

function dotLoop :: "real list \<Rightarrow> real list \<Rightarrow> nat \<Rightarrow> real \<Rightarrow> real" where
  "dotLoop vecA vecB i product =
     (if i < length vecA
      then dotLoop vecA vecB (i + 1) (product + vecA ! i * vecB ! i)
      else product)"
  by pat_completeness auto
termination
  by (relation "measure (\<lambda>(vecA, vecB, i, product). length vecA - i)") auto

definition dotProduct :: "real list \<Rightarrow> real list \<Rightarrow> error + real" where
  "dotProduct vecA vecB =
     (if length vecA \<noteq> length vecB then Inl DimensionMismatch
      else Inr (dotLoop vecA vecB 0 0))"

function sumSquaresLoop :: "real list \<Rightarrow> nat \<Rightarrow> real \<Rightarrow> real" where
  "sumSquaresLoop vec i sumOfSquares =
     (if i < length vec
      then sumSquaresLoop vec (i + 1) (sumOfSquares + vec ! i * vec ! i)
      else sumOfSquares)"
  by pat_completeness auto
termination
  by (relation "measure (\<lambda>(vec, i, sumOfSquares). length vec - i)") auto

definition magnitude :: "real list \<Rightarrow> real" where
  "magnitude vec = sqrt (sumSquaresLoop vec 0 0)"

text \<open>
  The body of the \<^verbatim>\<open>try\<close> block of \<^verbatim>\<open>cosineSimilarity\<close>: \<open>Inl\<close> is an exception
  that reaches the \<^verbatim>\<open>catch\<close>.
\<close>

definition cosineSimilarityTry :: "real list \<Rightarrow> real list \<Rightarrow> error + real" where
  "cosineSimilarityTry vecA vecB =
     (let magA = magnitude vecA; magB = magnitude vecB in
      if magA = 0 \<or> magB = 0 \<or> length vecA \<noteq> length vecB then Inr 0
      else (case dotProduct vecA vecB of
              Inl e \<Rightarrow> Inl e
            | Inr dot \<Rightarrow> Inr (dot / (magA * magB))))"

definition cosineSimilarity :: "real list \<Rightarrow> real list \<Rightarrow> real" where
  "cosineSimilarity vecA vecB =
     (case cosineSimilarityTry vecA vecB of
        Inl e \<Rightarrow> 0    \<comment> \<open>catch: return neutral value on error\<close>
      | Inr r \<Rightarrow> r)"

section \<open>Values and records\<close>

text \<open>
  The values the program stores and passes around. Objects are lists of own properties in
  insertion order, with \<^verbatim>\<open>Object.prototype\<close> as their prototype (the objects of object
  literals and of \<^verbatim>\<open>JSON.parse\<close>).
  Arrays inside a value are arrays of numbers (\<^verbatim>\<open>number[]\<close>, the only arrays the
  program declares or builds inside a record); the array of records that makes up a table
  is a list of such values. On these values \<^verbatim>\<open>JSON.parse\<close> undoes
  \<^verbatim>\<open>JSON.stringify\<close>.
\<close>

datatype json =
    JNull
  | JBool bool
  | JNum real
  | JStr string
  | JArr "real list"
  | JObj "(string \<times> json) list"

definition hasOwnProperty :: "(string \<times> json) list \<Rightarrow> string \<Rightarrow> bool" where
  "hasOwnProperty props k = (k \<in> set (map fst props))"

text \<open>
  The object \<^verbatim>\<open>{ ...data, id: v }\<close>: the properties of \<open>data\<close> in their order, with
  \<open>id\<close> overwritten in place or added at the end.
\<close>

fun setProp :: "(string \<times> json) list \<Rightarrow> string \<Rightarrow> json \<Rightarrow> (string \<times> json) list" where
  "setProp [] k v = [(k, v)]"
| "setProp ((k', v') # props) k v =
     (if k' = k then (k, v) # props else (k', v') # setProp props k v)"

text \<open>
  \<^verbatim>\<open>crypto.randomUUID()\<close> is external. All the model knows of its results is that
  they are strings of 36 characters.
\<close>

typedef uuid = "{s :: string. length s = 36}"
  by (rule exI [of _ "replicate 36 (CHR ''0'')"]) simp

section \<open>The record store (lib/DatabaseAdapter)\<close>

text \<open>
  What \<^verbatim>\<open>_readTable\<close> can find at a table's path: no file (ENOENT), a file whose
  content trims to the empty string, content that is not JSON (or any other read error),
  JSON that is not an array, or a JSON array.
\<close>

datatype tableFile =
    Missing
  | Blank
  | Malformed
  | NonArray
  | Rows "json list"

text \<open>
  The state: the files of the database directory by file name, the identifiers
  \<^verbatim>\<open>crypto.randomUUID\<close> will return, in order, and what \<^verbatim>\<open>fs.writeFile\<close> does
  at each path: \<open>failedWrite w p = None\<close> when a write to \<open>p\<close> succeeds, and
  \<open>Some left\<close> when it throws (no permission, name too long, disk full, ...) and leaves
  \<open>left\<close> at the path.
\<close>

record world =
  files :: "string \<Rightarrow> tableFile"
  rng :: "nat \<Rightarrow> uuid"
  failedWrite :: "string \<Rightarrow> tableFile option"

definition randomUUID :: "world \<Rightarrow> string \<times> world" where
  "randomUUID w = (Rep_uuid (rng w 0), w\<lparr>rng := (\<lambda>n. rng w (Suc n))\<rparr>)"

text \<open>\<^verbatim>\<open>String.prototype.includes\<close>: \<open>sub\<close> occurs somewhere in \<open>s\<close>.\<close>

fun includes_str :: "string \<Rightarrow> string \<Rightarrow> bool" where
  "includes_str [] sub = (sub = [])"
| "includes_str (c # s) sub = (take (length sub) (c # s) = sub \<or> includes_str s sub)"

definition getFilePath :: "string \<Rightarrow> error + string" where
  "getFilePath tableName =
     (if tableName = [] \<or> includes_str tableName ''/'' \<or> includes_str tableName [CHR 0x5C]
         \<or> includes_str tableName ''..''
      then Inl InvalidTableName
      else Inr (tableName @ ''.json''))"

definition readTable :: "world \<Rightarrow> string \<Rightarrow> error + json list" where
  "readTable w tableName =
     (case getFilePath tableName of
        Inl e \<Rightarrow> Inl e
      | Inr filePath \<Rightarrow>
          Inr (case files w filePath of
                 Missing \<Rightarrow> []
               | Blank \<Rightarrow> []
               | Malformed \<Rightarrow> []
               | NonArray \<Rightarrow> []
               | Rows data \<Rightarrow> data))"

text \<open>
  \<^verbatim>\<open>_writeTable\<close> logs an error of \<^verbatim>\<open>fs.writeFile\<close> and throws it again.
\<close>

definition writeTable :: "world \<Rightarrow> string \<Rightarrow> json list \<Rightarrow> (error + unit) \<times> world" where
  "writeTable w tableName data =
     (case getFilePath tableName of
        Inl e \<Rightarrow> (Inl e, w)
      | Inr filePath \<Rightarrow>
          (case failedWrite w filePath of
             Some left \<Rightarrow> (Inl WriteFailed, w\<lparr>files := (files w)(filePath := left)\<rparr>)
           | None \<Rightarrow> (Inr (), w\<lparr>files := (files w)(filePath := Rows data)\<rparr>)))"

text \<open>
  The call \<^verbatim>\<open>data.hasOwnProperty(k)\<close>. The method is looked up on the object first:
  an own property named \<open>hasOwnProperty\<close> holds one of the values above, never a
  function, and calling it throws a \<^verbatim>\<open>TypeError\<close>. Otherwise the built-in method
  answers.
\<close>

definition hasOwnPropertyCall :: "(string \<times> json) list \<Rightarrow> string \<Rightarrow> error + bool" where
  "hasOwnPropertyCall props k =
     (if hasOwnProperty props ''hasOwnProperty'' then Inl NotAFunction
      else Inr (hasOwnProperty props k))"

text \<open>
  The public methods return their result, or the exception they throw, together with
  the state they leave behind.
\<close>

definition insert_db :: "world \<Rightarrow> string \<Rightarrow> json \<Rightarrow> (error + json) \<times> world" where
  "insert_db w tableName data =
     (case data of
        JObj props \<Rightarrow>
          (case hasOwnPropertyCall props ''id'' of
             Inl e \<Rightarrow> (Inl e, w)
           | Inr True \<Rightarrow> (Inl DataHasId, w)
           | Inr False \<Rightarrow>
               (case readTable w tableName of
                  Inl e \<Rightarrow> (Inl e, w)
                | Inr tableData \<Rightarrow>
                    (let (uuid, w1) = randomUUID w;
                         newRecord = JObj (setProp props ''id'' (JStr uuid))
                     in case writeTable w1 tableName (tableData @ [newRecord]) of
                          (Inl e, w2) \<Rightarrow> (Inl e, w2)
                        | (Inr u, w2) \<Rightarrow> (Inr newRecord, w2))))
      | _ \<Rightarrow> (Inl DataNotObject, w))"

text \<open>The argument of \<^verbatim>\<open>insertMany\<close>: an array of values, or something else.\<close>

datatype dataArrayArg = NotAnArray | Items "json list"

text \<open>
  The loop of \<^verbatim>\<open>insertMany\<close>. An exception of \<^verbatim>\<open>data.hasOwnProperty\<close> leaves
  the loop and the method.
\<close>

fun insertManyLoop ::
  "json list \<Rightarrow> json list \<Rightarrow> json list \<Rightarrow> world \<Rightarrow> (error + json list \<times> json list) \<times> world" where
  "insertManyLoop [] tableData newRecords w = (Inr (tableData, newRecords), w)"
| "insertManyLoop (data # rest) tableData newRecords w =
     (case data of
        JObj props \<Rightarrow>
          (case hasOwnPropertyCall props ''id'' of
             Inl e \<Rightarrow> (Inl e, w)
           | Inr True \<Rightarrow> insertManyLoop rest tableData newRecords w
           | Inr False \<Rightarrow>
               (let (uuid, w1) = randomUUID w;
                    newRecord = JObj (setProp props ''id'' (JStr uuid))
                in insertManyLoop rest (tableData @ [newRecord]) (newRecords @ [newRecord]) w1))
      | _ \<Rightarrow> insertManyLoop rest tableData newRecords w)"

definition insertMany ::
  "world \<Rightarrow> string \<Rightarrow> dataArrayArg \<Rightarrow> (error + json list) \<times> world" where
  "insertMany w tableName arg =
     (case arg of
        NotAnArray \<Rightarrow> (Inl InputNotArray, w)
      | Items dataArray \<Rightarrow>
          (case readTable w tableName of
             Inl e \<Rightarrow> (Inl e, w)
           | Inr tableData \<Rightarrow>
               (case insertManyLoop dataArray tableData [] w of
                  (Inl e, w1) \<Rightarrow> (Inl e, w1)
                | (Inr (tableData', newRecords), w1) \<Rightarrow>
                    if length newRecords > 0
                    then (case writeTable w1 tableName tableData' of
                            (Inl e, w2) \<Rightarrow> (Inl e, w2)
                          | (Inr u, w2) \<Rightarrow> (Inr newRecords, w2))
                    else (Inr newRecords, w1))))"

text \<open>
  The predicate of \<^verbatim>\<open>find\<close> in \<^verbatim>\<open>getById\<close>: a non-null object with an \<open>id\<close>
  property identical to the string looked for.
\<close>

definition hasId :: "string \<Rightarrow> json \<Rightarrow> bool" where
  "hasId ident r = (case r of JObj props \<Rightarrow> map_of props ''id'' = Some (JStr ident) | _ \<Rightarrow> False)"

definition getById :: "world \<Rightarrow> string \<Rightarrow> string \<Rightarrow> error + json option" where
  "getById w tableName ident =
     (if ident = [] then Inr None
      else (case readTable w tableName of
              Inl e \<Rightarrow> Inl e
            | Inr tableData \<Rightarrow> Inr (find (hasId ident) tableData)))"

text \<open>
  The predicate of \<^verbatim>\<open>filter\<close> in \<^verbatim>\<open>getAll\<close>: a non-null object whose \<open>id\<close> is a
  string.
\<close>

definition isBaseRecord :: "json \<Rightarrow> bool" where
  "isBaseRecord r =
     (case r of
        JObj props \<Rightarrow> (case map_of props ''id'' of Some (JStr s) \<Rightarrow> True | _ \<Rightarrow> False)
      | _ \<Rightarrow> False)"

definition getAll :: "world \<Rightarrow> string \<Rightarrow> error + json list" where
  "getAll w tableName =
     (case readTable w tableName of
        Inl e \<Rightarrow> Inl e
      | Inr tableData \<Rightarrow> Inr (filter isBaseRecord tableData))"

section \<open>The embedding service (services/EmbeddingService)\<close>

text \<open>
  The stored embedding record as the service's interface declares it. The ranker tests
  whether \<open>embedding\<close> is there at all, so the field is optional here.
\<close>

record EmbeddingRecord =
  id' :: string
  resourceId :: string
  contentChunk :: string
  embedding :: "real list option"

text \<open>
  The remote \<^verbatim>\<open>embed\<close> call with the configured model is external: a function from
  the text to the vector it returns, \<open>None\<close> when the call fails.
\<close>

type_synonym embedCall = "string \<Rightarrow> real list option"

definition generateEmbedding :: "embedCall \<Rightarrow> string \<Rightarrow> error + real list" where
  "generateEmbedding embed' val =
     (if val = [] then Inr []
      else (case embed' val of
              Some vec \<Rightarrow> Inr vec
            | None \<Rightarrow> Inl EmbeddingFailed))"

text \<open>
  \<^verbatim>\<open>String.prototype.substring\<close>: both indices are clamped to the string and swapped
  when the first is the larger.
\<close>

definition substring :: "string \<Rightarrow> int \<Rightarrow> int \<Rightarrow> string" where
  "substring s indexStart indexEnd =
     (let len = int (length s);
          finalStart = min (max indexStart 0) len;
          finalEnd = min (max indexEnd 0) len;
          from = min finalStart finalEnd;
          to = max finalStart finalEnd
      in take (nat (to - from)) (drop (nat from) s))"

text \<open>
  The chunking loop, \<^verbatim>\<open>for (let i = 0; i < value.length; i += chunkSize - overlap)\<close>,
  with integer parameters. Nothing in the code keeps the step positive, so the loop need
  not end: \<open>None\<close> is a run that never leaves the loop.
\<close>

partial_function (option) chunkLoop ::
  "string \<Rightarrow> int \<Rightarrow> int \<Rightarrow> int \<Rightarrow> string list \<Rightarrow> string list option" where
  "chunkLoop val chunkSize overlap i chunks =
     (if i < int (length val)
      then chunkLoop val chunkSize overlap (i + (chunkSize - overlap))
             (chunks @ [substring val i (i + chunkSize)])
      else Some chunks)"

text \<open>The second loop: one \<^verbatim>\<open>embed\<close> call per chunk; the first failure is rethrown.\<close>

fun embedLoop ::
  "embedCall \<Rightarrow> string list \<Rightarrow> (string \<times> real list) list \<Rightarrow> error + (string \<times> real list) list" where
  "embedLoop embed' [] results = Inr results"
| "embedLoop embed' (chunk # rest) results =
     (case embed' chunk of
        Some vec \<Rightarrow> embedLoop embed' rest (results @ [(chunk, vec)])
      | None \<Rightarrow> Inl EmbeddingFailed)"

text \<open>
  An element \<^verbatim>\<open>{ content, embedding }\<close> of the result is the pair of its two fields.
\<close>

definition generateEmbeddings ::
  "embedCall \<Rightarrow> string \<Rightarrow> int \<Rightarrow> int \<Rightarrow> (error + (string \<times> real list) list) option" where
  "generateEmbeddings embed' val chunkSize overlap =
     (if val = [] then Some (Inr [])
      else (case chunkLoop val chunkSize overlap 0 [] of
              None \<Rightarrow> None
            | Some chunks \<Rightarrow>
                if length chunks = 0 then Some (Inr [])
                else Some (embedLoop embed' chunks [])))"

definition SIMILARITY_THRESHOLD :: real where
  "SIMILARITY_THRESHOLD = 0.5"

fun similarityLoop ::
  "real list \<Rightarrow> EmbeddingRecord list \<Rightarrow> EmbeddingRecord list \<Rightarrow> EmbeddingRecord list" where
  "similarityLoop queryVector [] similarityResults = similarityResults"
| "similarityLoop queryVector (record # rest) similarityResults =
     (case embedding record of
        None \<Rightarrow> similarityLoop queryVector rest similarityResults
      | Some e \<Rightarrow>
          if length e \<noteq> length queryVector
          then similarityLoop queryVector rest similarityResults
          else if cosineSimilarity queryVector e \<ge> SIMILARITY_THRESHOLD
          then similarityLoop queryVector rest (similarityResults @ [record])
          else similarityLoop queryVector rest similarityResults)"

definition findMostSimilar ::
  "real list \<Rightarrow> EmbeddingRecord list \<Rightarrow> EmbeddingRecord list option" where
  "findMostSimilar queryVector storedEmbeddings =
     (if length queryVector = 0 \<or> length storedEmbeddings = 0 then None
      else Some (similarityLoop queryVector storedEmbeddings []))"

section \<open>The document processor (services/DocumentProcessorService)\<close>

text \<open>
  The collaborators of the processor that are not part of the repository: the embedding
  call, reading a file, \<^verbatim>\<open>pdf-parse\<close> (giving the text of the document) and
  \<^verbatim>\<open>path.basename\<close>. \<open>None\<close> is a call that throws.
\<close>

record services =
  embed' :: embedCall
  readFile :: "string \<Rightarrow> string option"
  pdfParse :: "string \<Rightarrow> string option"
  basename :: "string \<Rightarrow> string"

definition RESOURCES_TABLE :: string where
  "RESOURCES_TABLE = ''resources''"

definition EMBEDDINGS_TABLE :: string where
  "EMBEDDINGS_TABLE = ''embeddings''"

text \<open>
  \<^verbatim>\<open>String.prototype.trim\<close> removes white space and line terminators at both ends;
  among characters of eight bits these are tab, line feed, vertical tab, form feed,
  carriage return, space and the no-break space.
\<close>

definition isWhiteSpace :: "char \<Rightarrow> bool" where
  "isWhiteSpace c = (c \<in> {CHR 0x09, CHR 0x0A, CHR 0x0B, CHR 0x0C, CHR 0x0D, CHR 0x20, CHR 0xA0})"

definition trim :: "string \<Rightarrow> string" where
  "trim s = rev (dropWhile isWhiteSpace (rev (dropWhile isWhiteSpace s)))"

text \<open>
  The record \<^verbatim>\<open>{ resourceId: resource.id, contentChunk: ce.content, embedding: ce.embedding }\<close>;
  a \<open>resourceId\<close> that is \<^verbatim>\<open>undefined\<close> is not written by \<^verbatim>\<open>JSON.stringify\<close>.
\<close>

definition embeddingRecordToInsert :: "json \<Rightarrow> string \<times> real list \<Rightarrow> json" where
  "embeddingRecordToInsert resource ce =
     JObj ((case resource of
              JObj props \<Rightarrow> (case map_of props ''id'' of
                                Some v \<Rightarrow> [(''resourceId'', v)]
                              | None \<Rightarrow> [])
            | _ \<Rightarrow> [])
           @ [(''contentChunk'', JStr (fst ce)), (''embedding'', JArr (snd ce))])"

text \<open>
  Step 1 of \<^verbatim>\<open>processPdf\<close>: read the file, parse it, and refuse a text that is
  empty or only white space.
\<close>

definition extractText :: "services \<Rightarrow> string \<Rightarrow> error + string" where
  "extractText env pdfFilePath =
     (case readFile env pdfFilePath of
        None \<Rightarrow> Inl PdfReadFailed
      | Some fileBuffer \<Rightarrow>
          (case pdfParse env fileBuffer of
             None \<Rightarrow> Inl PdfParseFailed
           | Some fullTextContent \<Rightarrow>
               if fullTextContent = [] \<or> length (trim fullTextContent) = 0
               then Inl NoTextContent
               else Inr fullTextContent))"

text \<open>
  Steps 2 to 5: store the resource, generate the embeddings of the chunks, build the
  embedding records and store them.
\<close>

definition processPdf ::
  "services \<Rightarrow> world \<Rightarrow> string \<Rightarrow> ((error + json \<times> nat) \<times> world) option" where
  "processPdf env w pdfFilePath =
     (case extractText env pdfFilePath of
        Inl e \<Rightarrow> Some (Inl e, w)
      | Inr fullTextContent \<Rightarrow>
     (case insert_db w RESOURCES_TABLE
             (JObj [(''content'', JStr fullTextContent),
                    (''sourceFile'', JStr (basename env pdfFilePath))]) of
        (Inl e, w1) \<Rightarrow> Some (Inl e, w1)
      | (Inr resource, w1) \<Rightarrow>
     (case generateEmbeddings (embed' env) fullTextContent 500 50 of
        None \<Rightarrow> None
      | Some (Inl e) \<Rightarrow> Some (Inl e, w1)
      | Some (Inr chunkEmbeddings) \<Rightarrow>
          if length chunkEmbeddings = 0 then Some (Inr (resource, 0), w1)
          else
     (case insertMany w1 EMBEDDINGS_TABLE
             (Items (map (embeddingRecordToInsert resource) chunkEmbeddings)) of
        (Inl e, w2) \<Rightarrow> Some (Inl e, w2)
      | (Inr insertedEmbeddings, w2) \<Rightarrow>
          Some (Inr (resource, length insertedEmbeddings), w2)))))"

text \<open>
  The type guard of \<^verbatim>\<open>findRelevantContent\<close>: \<open>resourceId\<close> and \<open>contentChunk\<close> are
  strings and \<open>embedding\<close> is an array. Where the guard holds the record is read at the
  declared type. The guard is applied to what \<^verbatim>\<open>getAll\<close> returned, where \<open>id\<close> is
  a string; the empty string stands for an \<open>id\<close> that is not.
\<close>

definition asEmbeddingRecord :: "json \<Rightarrow> EmbeddingRecord option" where
  "asEmbeddingRecord r =
     (case r of
        JObj props \<Rightarrow>
          (case (map_of props ''resourceId'', map_of props ''contentChunk'',
                 map_of props ''embedding'') of
             (Some (JStr rid), Some (JStr chunk), Some (JArr e)) \<Rightarrow>
               Some \<lparr>id' = (case map_of props ''id'' of Some (JStr i) \<Rightarrow> i | _ \<Rightarrow> []),
                     resourceId = rid, contentChunk = chunk, embedding = Some e\<rparr>
           | _ \<Rightarrow> None)
      | _ \<Rightarrow> None)"

record SearchServiceResult =
  chunks :: "EmbeddingRecord list"

definition findRelevantContent ::
  "services \<Rightarrow> world \<Rightarrow> string \<Rightarrow> error + SearchServiceResult option" where
  "findRelevantContent env w userQuery =
     (case generateEmbedding (embed' env) userQuery of
        Inl e \<Rightarrow> Inl e
      | Inr queryVector \<Rightarrow>
          if length queryVector = 0 then Inr None
          else
     (case getAll w EMBEDDINGS_TABLE of
        Inl e \<Rightarrow> Inl e
      | Inr allStoredEmbeddings \<Rightarrow>
          (let validStoredEmbeddings = List.map_filter asEmbeddingRecord allStoredEmbeddings
           in if length validStoredEmbeddings = 0 then Inr None
              else (case findMostSimilar queryVector validStoredEmbeddings of
                      None \<Rightarrow> Inr None
                    | Some matchedChunks \<Rightarrow>
                        if length matchedChunks = 0 then Inr None
                        else Inr (Some \<lparr>chunks = matchedChunks\<rparr>)))))"

section \<open>Notions of the specification of the record store\<close>

text \<open>
  Follows the specification's words, not a function of the source: an input that is
  a non-null, non-array object without an \<open>id\<close> property.
\<close>

definition insertable :: "json \<Rightarrow> bool" where
  "insertable d = (case d of JObj props \<Rightarrow> \<not> hasOwnProperty props ''id'' | _ \<Rightarrow> False)"

text \<open>
  Follows the specification's words, not a function of the source: the input's fields
  plus a generated id.
\<close>

definition withId :: "json \<Rightarrow> string \<Rightarrow> json" where
  "withId d u = (case d of JObj props \<Rightarrow> JObj (props @ [(''id'', JStr u)]) | _ \<Rightarrow> d)"

section \<open>Concrete states for the examples\<close>

definition exampleUuid :: "char \<Rightarrow> uuid" where
  "exampleUuid c = Abs_uuid (''00000000-0000-4000-8000-00000000000'' @ [c])"

definition exampleRng :: "nat \<Rightarrow> uuid" where
  "exampleRng n = exampleUuid (if n = 0 then CHR ''a'' else if n = 1 then CHR ''b'' else CHR ''c'')"

text \<open>A database directory holding the two tables of the document processor.\<close>

definition exampleWorld :: "tableFile \<Rightarrow> tableFile \<Rightarrow> world" where
  "exampleWorld resources embeddings =
     \<lparr>files = (\<lambda>p. if p = ''resources.json'' then resources
                   else if p = ''embeddings.json'' then embeddings
                   else Missing),
      rng = exampleRng,
      failedWrite = (\<lambda>p. None)\<rparr>"

definition storedEmbedding :: "string \<Rightarrow> real list \<Rightarrow> json" where
  "storedEmbedding ident e =
     JObj [(''resourceId'', JStr ''r''), (''contentChunk'', JStr ident),
           (''embedding'', JArr e), (''id'', JStr ident)]"

text \<open>An embedding provider that answers every text with the same vector.\<close>

definition exampleServices :: "real list \<Rightarrow> string \<Rightarrow> services" where
  "exampleServices v text =
     \<lparr>embed' = (\<lambda>t. Some v), readFile = (\<lambda>p. Some ''%PDF''),
      pdfParse = (\<lambda>b. Some text), basename = (\<lambda>p. p)\<rparr>"

section \<open>Properties of the vector utilities\<close>

lemma dotLoop_sum:
  "i \<le> length vecA \<Longrightarrow>
   dotLoop vecA vecB i product = product + (\<Sum>k = i..<length vecA. vecA ! k * vecB ! k)"
proof (induction vecA vecB i product rule: dotLoop.induct)
  case (1 vecA vecB i product)
  show ?case
  proof (cases "i < length vecA")
    case True
    then have "dotLoop vecA vecB i product =
        dotLoop vecA vecB (i + 1) (product + vecA ! i * vecB ! i)"
      by simp
    also have "\<dots> = product + vecA ! i * vecB ! i
        + (\<Sum>k = i + 1..<length vecA. vecA ! k * vecB ! k)"
      using True "1.IH" by simp
    also have "\<dots> = product + (\<Sum>k = i..<length vecA. vecA ! k * vecB ! k)"
      using True by (simp add: sum.atLeast_Suc_lessThan)
    finally show ?thesis .
  next
    case False
    with "1.prems" show ?thesis by simp
  qed
qed

lemma sumSquaresLoop_sum:
  "i \<le> length vec \<Longrightarrow>
   sumSquaresLoop vec i s = s + (\<Sum>k = i..<length vec. vec ! k * vec ! k)"
proof (induction vec i s rule: sumSquaresLoop.induct)
  case (1 vec i s)
  show ?case
  proof (cases "i < length vec")
    case True
    then have "sumSquaresLoop vec i s = sumSquaresLoop vec (i + 1) (s + vec ! i * vec ! i)"
      by simp
    also have "\<dots> = s + vec ! i * vec ! i + (\<Sum>k = i + 1..<length vec. vec ! k * vec ! k)"
      using True "1.IH" by simp
    also have "\<dots> = s + (\<Sum>k = i..<length vec. vec ! k * vec ! k)"
      using True by (simp add: sum.atLeast_Suc_lessThan)
    finally show ?thesis .
  next
    case False
    with "1.prems" show ?thesis by simp
  qed
qed

lemma dotProduct_same_length:
  "length vecA = length vecB \<Longrightarrow>
   dotProduct vecA vecB = Inr (\<Sum>k = 0..<length vecA. vecA ! k * vecB ! k)"
  by (simp add: dotProduct_def dotLoop_sum del: dotLoop.simps)

lemma magnitude_sum: "magnitude vec = sqrt (\<Sum>k = 0..<length vec. vec ! k * vec ! k)"
  by (simp add: magnitude_def sumSquaresLoop_sum del: sumSquaresLoop.simps)

lemma magnitude_sum_list: "magnitude vec = sqrt (\<Sum>x\<leftarrow>vec. x * x)"
proof -
  have "(\<Sum>k = 0..<length vec. vec ! k * vec ! k) = (\<Sum>x\<leftarrow>vec. x * x)"
    by (simp add: sum_list_sum_nth atLeast0LessThan)
  then show ?thesis by (simp add: magnitude_sum)
qed

lemma sqrt_25: "sqrt 25 = 5"
  by (rule real_sqrt_unique) simp_all




section \<open>The ranker\<close>

lemma cosineSimilarity_unfold:
  "cosineSimilarity vecA vecB =
     (if length vecA \<noteq> length vecB \<or> magnitude vecA = 0 \<or> magnitude vecB = 0 then 0
      else (\<Sum>k = 0..<length vecA. vecA ! k * vecB ! k) / (magnitude vecA * magnitude vecB))"
  by (auto simp: cosineSimilarity_def cosineSimilarityTry_def Let_def dotProduct_same_length)

lemma cosineSimilarity_Nil: "cosineSimilarity [] e = 0"
  by (simp add: cosineSimilarity_unfold magnitude_sum_list)

lemma similarityLoop_filter:
  "similarityLoop q rs acc =
     acc @ filter (\<lambda>r. \<exists>e. embedding r = Some e \<and> length e = length q
                     \<and> SIMILARITY_THRESHOLD \<le> cosineSimilarity q e) rs"
  by (induction rs arbitrary: acc) (auto split: option.splits)

lemma findMostSimilar_unfold:
  "findMostSimilar q rs =
     (if q = [] \<or> rs = [] then None
      else Some (filter (\<lambda>r. \<exists>e. embedding r = Some e \<and> length e = length q
                               \<and> 0.5 \<le> cosineSimilarity q e) rs))"
  by (simp add: findMostSimilar_def similarityLoop_filter SIMILARITY_THRESHOLD_def)



lemma cosineSimilarity_example_34: "cosineSimilarity [1, 0] [3, 4] = 3 / 5"
  by (simp add: cosineSimilarity_unfold magnitude_sum_list sqrt_25 numeral_2_eq_2)

lemma cosineSimilarity_example_10: "cosineSimilarity [1, 0] [1, 0] = 1"
  by (simp add: cosineSimilarity_unfold magnitude_sum_list numeral_2_eq_2)

lemma cosineSimilarity_example_01: "cosineSimilarity [1, 0] [0, 1] = 0"
  by (simp add: cosineSimilarity_unfold magnitude_sum_list numeral_2_eq_2)

section \<open>Search\<close>

lemma Rep_exampleUuid:
  "Rep_uuid (exampleUuid c) = ''00000000-0000-4000-8000-00000000000'' @ [c]"
  by (simp add: exampleUuid_def Abs_uuid_inverse)

lemma getFilePath_tables:
  "getFilePath RESOURCES_TABLE = Inr ''resources.json''"
  "getFilePath EMBEDDINGS_TABLE = Inr ''embeddings.json''"
  by (simp_all add: getFilePath_def RESOURCES_TABLE_def EMBEDDINGS_TABLE_def)

lemma readTable_exampleWorld:
  "readTable (exampleWorld res (Rows rows)) EMBEDDINGS_TABLE = Inr rows"
  "readTable (exampleWorld (Rows rows) emb) RESOURCES_TABLE = Inr rows"
  by (simp_all add: readTable_def getFilePath_tables exampleWorld_def)

lemma getAll_embeddings:
  "readTable w EMBEDDINGS_TABLE = Inr rows \<Longrightarrow>
   getAll w EMBEDDINGS_TABLE = Inr (filter isBaseRecord rows)"
  by (simp add: getAll_def)

lemma findRelevantContent_unfold:
  assumes "generateEmbedding (embed' env) userQuery = Inr queryVector"
    and "readTable w EMBEDDINGS_TABLE = Inr rows"
  shows "findRelevantContent env w userQuery =
     Inr (case findMostSimilar queryVector
                 (List.map_filter asEmbeddingRecord (filter isBaseRecord rows)) of
            None \<Rightarrow> None
          | Some matched \<Rightarrow> if matched = [] then None else Some \<lparr>chunks = matched\<rparr>)"
  using assms
  by (auto simp: findRelevantContent_def getAll_embeddings
      Let_def findMostSimilar_unfold split: option.splits)

lemma asEmbeddingRecord_storedEmbedding:
  "asEmbeddingRecord (storedEmbedding i e) =
     Some \<lparr>id' = i, resourceId = ''r'', contentChunk = i, embedding = Some e\<rparr>"
  by (simp add: asEmbeddingRecord_def storedEmbedding_def)

lemma isBaseRecord_storedEmbedding: "isBaseRecord (storedEmbedding i e)"
  by (simp add: isBaseRecord_def storedEmbedding_def)

lemma generateEmbedding_exampleServices:
  "generateEmbedding (embed' (exampleServices v t)) ''q'' = Inr v"
  by (simp add: generateEmbedding_def exampleServices_def)

lemma findRelevantContent_example:
  "findRelevantContent (exampleServices [1, 0] '''')
     (exampleWorld Missing (Rows [storedEmbedding ''a'' [3, 4], storedEmbedding ''b'' [1, 0]]))
     ''q''
   = Inr (Some \<lparr>chunks =
       [\<lparr>id' = ''a'', resourceId = ''r'', contentChunk = ''a'', embedding = Some [3, 4]\<rparr>,
        \<lparr>id' = ''b'', resourceId = ''r'', contentChunk = ''b'', embedding = Some [1, 0]\<rparr>]\<rparr>)"
  by (simp add: findRelevantContent_unfold [OF generateEmbedding_exampleServices
        readTable_exampleWorld(1)]
      List.map_filter_simps asEmbeddingRecord_storedEmbedding isBaseRecord_storedEmbedding
      findMostSimilar_unfold cosineSimilarity_example_34 cosineSimilarity_example_10)

lemma cosineSimilarity_length_mismatch:
  "length e \<noteq> length q \<Longrightarrow> cosineSimilarity q e = 0"
  by (simp add: cosineSimilarity_unfold)

lemma reaches_threshold_iff:
  "(\<exists>e. embedding r = Some e \<and> length e = length q \<and> 0.5 \<le> cosineSimilarity q e) =
   (\<exists>e. embedding r = Some e \<and> 0.5 \<le> cosineSimilarity q e)"
  using cosineSimilarity_length_mismatch [of _ q] by fastforce

lemma set_map_filter: "set (List.map_filter f xs) = {y. \<exists>x\<in>set xs. f x = Some y}"
  by (induction xs) (auto simp: List.map_filter_simps split: option.splits)

lemma map_filter_empty_iff: "(List.map_filter f xs = []) = (\<forall>x\<in>set xs. f x = None)"
  by (induction xs) (auto simp: List.map_filter_simps split: option.splits)

text \<open>
  C2, as the code has it. The chunks a search returns are the valid stored records
  (those \<^verbatim>\<open>getAll\<close> returns and the type guard accepts) whose cosine similarity to
  the query vector is at least 0.5, in the order in which the table stores them: no step
  of the search orders them by similarity.
\<close>

theorem findRelevantContent_storage_order:
  assumes "findRelevantContent env w userQuery = Inr (Some result)"
    and "readTable w EMBEDDINGS_TABLE = Inr rows"
  shows "\<exists>queryVector. generateEmbedding (embed' env) userQuery = Inr queryVector \<and>
     chunks result =
       filter (\<lambda>r. \<exists>e. embedding r = Some e \<and> 0.5 \<le> cosineSimilarity queryVector e)
         (List.map_filter asEmbeddingRecord (filter isBaseRecord rows))"
proof (cases "generateEmbedding (embed' env) userQuery")
  case (Inl e)
  with assms(1) show ?thesis by (simp add: findRelevantContent_def)
next
  case (Inr queryVector)
  from assms(1) have "chunks result =
       filter (\<lambda>r. \<exists>e. embedding r = Some e \<and> length e = length queryVector
                      \<and> 0.5 \<le> cosineSimilarity queryVector e)
         (List.map_filter asEmbeddingRecord (filter isBaseRecord rows))"
    unfolding findRelevantContent_unfold [OF Inr assms(2)] findMostSimilar_unfold
    by (auto split: if_splits)
  with Inr show ?thesis unfolding reaches_threshold_iff by blast
qed

theorem findRelevantContent_storage_order_witness:
  "\<exists>queryVector. generateEmbedding (embed' (exampleServices [1, 0] '''')) ''q'' = Inr queryVector \<and>
     [\<lparr>id' = ''a'', resourceId = ''r'', contentChunk = ''a'', embedding = Some [3, 4]\<rparr>,
      \<lparr>id' = ''b'', resourceId = ''r'', contentChunk = ''b'', embedding = Some [1, 0]\<rparr>] =
       filter (\<lambda>r. \<exists>e. embedding r = Some e \<and> 0.5 \<le> cosineSimilarity queryVector e)
         (List.map_filter asEmbeddingRecord
            (filter isBaseRecord [storedEmbedding ''a'' [3, 4], storedEmbedding ''b'' [1, 0]]))"
  using findRelevantContent_storage_order
    [OF findRelevantContent_example readTable_exampleWorld(1)]
  by simp

text \<open>
  The claim as it stands fails: the record stored first comes first in the answer although
  its similarity to the query vector, 3/5, is below that of the record after it, 1.
\<close>

theorem findRelevantContent_not_ranked:
  "findRelevantContent (exampleServices [1, 0] '''')
     (exampleWorld Missing (Rows [storedEmbedding ''a'' [3, 4], storedEmbedding ''b'' [1, 0]]))
     ''q''
   = Inr (Some \<lparr>chunks =
       [\<lparr>id' = ''a'', resourceId = ''r'', contentChunk = ''a'', embedding = Some [3, 4]\<rparr>,
        \<lparr>id' = ''b'', resourceId = ''r'', contentChunk = ''b'', embedding = Some [1, 0]\<rparr>]\<rparr>) \<and>
   generateEmbedding (embed' (exampleServices [1, 0] '''')) ''q'' = Inr [1, 0] \<and>
   cosineSimilarity [1, 0] [3, 4] < cosineSimilarity [1, 0] [1, 0]"
  by (simp add: findRelevantContent_example generateEmbedding_exampleServices
      cosineSimilarity_example_34 cosineSimilarity_example_10)

text \<open>
  C7, as the code has it. Once the embedding of the query is there (for the empty query
  it is the empty vector, without a call of the provider), \<^verbatim>\<open>findRelevantContent\<close>
  answers \<^verbatim>\<open>null\<close> exactly when that vector is empty, or the table holds no valid
  embedding record, or no valid record reaches the threshold; a valid record is an object
  whose \<open>id\<close> is a string (the filter of \<^verbatim>\<open>getAll\<close>), whose \<open>resourceId\<close> and
  \<open>contentChunk\<close> are strings and whose \<open>embedding\<close> is an array (the type guard). In
  every other case the answer carries the non-empty list of the ranker.
\<close>

theorem findRelevantContent_null_iff:
  assumes "generateEmbedding (embed' env) userQuery = Inr queryVector"
    and "readTable w EMBEDDINGS_TABLE = Inr rows"
  shows "generateEmbedding (embed' env) [] = Inr [] \<and>
    (findRelevantContent env w userQuery = Inr None) =
      (queryVector = [] \<or>
       (\<forall>r\<in>set rows. isBaseRecord r \<longrightarrow> asEmbeddingRecord r = None) \<or>
       (\<forall>r\<in>set rows. \<forall>er e. isBaseRecord r \<longrightarrow> asEmbeddingRecord r = Some er \<longrightarrow>
           embedding er = Some e \<longrightarrow> cosineSimilarity queryVector e < 0.5)) \<and>
    (findRelevantContent env w userQuery \<noteq> Inr None \<longrightarrow>
      (\<exists>matched. findMostSimilar queryVector
                    (List.map_filter asEmbeddingRecord (filter isBaseRecord rows)) = Some matched
         \<and> matched \<noteq> []
         \<and> findRelevantContent env w userQuery = Inr (Some \<lparr>chunks = matched\<rparr>)))"
proof -
  let ?valid = "List.map_filter asEmbeddingRecord (filter isBaseRecord rows)"
  let ?P = "\<lambda>r. \<exists>e. embedding r = Some e \<and> length e = length queryVector
                      \<and> 0.5 \<le> cosineSimilarity queryVector e"
  have none: "(filter ?P ?valid = []) =
      (\<forall>r\<in>set rows. \<forall>er e. isBaseRecord r \<longrightarrow> asEmbeddingRecord r = Some er \<longrightarrow>
           embedding er = Some e \<longrightarrow> cosineSimilarity queryVector e < 0.5)"
    unfolding reaches_threshold_iff filter_empty_conv set_map_filter
    by (auto simp: not_le)
  have valid: "(?valid = []) = (\<forall>r\<in>set rows. isBaseRecord r \<longrightarrow> asEmbeddingRecord r = None)"
    unfolding map_filter_empty_iff by auto
  have first: "generateEmbedding (embed' env) [] = Inr []"
    by (simp add: generateEmbedding_def)
  have unf: "findRelevantContent env w userQuery =
      Inr (if queryVector = [] \<or> ?valid = [] \<or> filter ?P ?valid = [] then None
           else Some \<lparr>chunks = filter ?P ?valid\<rparr>)"
    unfolding findRelevantContent_unfold [OF assms] findMostSimilar_unfold by simp
  show ?thesis
  proof (cases "queryVector = [] \<or> ?valid = [] \<or> filter ?P ?valid = []")
    case True
    then show ?thesis
      unfolding unf using none valid first by auto
  next
    case False
    then have "findMostSimilar queryVector ?valid = Some (filter ?P ?valid)"
      by (simp add: findMostSimilar_unfold)
    with False show ?thesis
      unfolding unf using none valid first by auto
  qed
qed

theorem findRelevantContent_null_iff_witness:
  "\<exists>matched. findMostSimilar [1, 0] (List.map_filter asEmbeddingRecord
            (filter isBaseRecord [storedEmbedding ''a'' [3, 4], storedEmbedding ''b'' [1, 0]]))
            = Some matched
         \<and> matched \<noteq> []
         \<and> findRelevantContent (exampleServices [1, 0] '''')
              (exampleWorld Missing
                 (Rows [storedEmbedding ''a'' [3, 4], storedEmbedding ''b'' [1, 0]]))
              ''q'' = Inr (Some \<lparr>chunks = matched\<rparr>)"
proof -
  have "findRelevantContent (exampleServices [1, 0] '''')
      (exampleWorld Missing (Rows [storedEmbedding ''a'' [3, 4], storedEmbedding ''b'' [1, 0]]))
      ''q'' \<noteq> Inr None"
    by (simp add: findRelevantContent_example)
  with findRelevantContent_null_iff
      [OF generateEmbedding_exampleServices readTable_exampleWorld(1)]
  show ?thesis by blast
qed

lemma cosineSimilarity_example_1: "cosineSimilarity [1] [1] = 1"
  by (simp add: cosineSimilarity_unfold magnitude_sum_list)

text \<open>
  The claim as it stands fails on a table whose only row has a string \<open>resourceId\<close>, a
  string \<open>contentChunk\<close> and an array \<open>embedding\<close> of similarity 1 to the query vector,
  but no \<open>id\<close>: the type guard accepts the row, but \<^verbatim>\<open>getAll\<close> has dropped it
  before, and the answer is \<^verbatim>\<open>null\<close>.
\<close>

theorem findRelevantContent_record_without_id:
  "generateEmbedding (embed' (exampleServices [1] '''')) ''q'' = Inr [1] \<and>
   readTable
     (exampleWorld Missing
        (Rows [JObj [(''resourceId'', JStr ''r''), (''contentChunk'', JStr ''c''),
                     (''embedding'', JArr [1])]]))
     EMBEDDINGS_TABLE
   = Inr [JObj [(''resourceId'', JStr ''r''), (''contentChunk'', JStr ''c''),
                (''embedding'', JArr [1])]] \<and>
   asEmbeddingRecord (JObj [(''resourceId'', JStr ''r''), (''contentChunk'', JStr ''c''),
                            (''embedding'', JArr [1])])
   = Some \<lparr>id' = [], resourceId = ''r'', contentChunk = ''c'', embedding = Some [1]\<rparr> \<and>
   0.5 \<le> cosineSimilarity [1] [1] \<and>
   findRelevantContent (exampleServices [1] '''')
     (exampleWorld Missing
        (Rows [JObj [(''resourceId'', JStr ''r''), (''contentChunk'', JStr ''c''),
                     (''embedding'', JArr [1])]]))
     ''q''
   = Inr None"
  by (simp add: findRelevantContent_unfold [OF generateEmbedding_exampleServices
        readTable_exampleWorld(1)]
      readTable_exampleWorld generateEmbedding_exampleServices
      List.map_filter_simps asEmbeddingRecord_def isBaseRecord_def findMostSimilar_unfold
      cosineSimilarity_example_1)

section \<open>The record store\<close>

lemma setProp_fresh:
  "\<not> hasOwnProperty props k \<Longrightarrow> setProp props k v = props @ [(k, v)]"
  by (induction props) (auto simp: hasOwnProperty_def)

lemma Rep_uuid_not_Nil: "Rep_uuid u \<noteq> []"
  using Rep_uuid [of u] by auto

lemma readTable_valid_name:
  "readTable w tableName = Inr rows \<Longrightarrow> getFilePath tableName = Inr (tableName @ ''.json'')"
  by (auto simp: readTable_def getFilePath_def split: if_splits)

lemma readTable_after_write:
  "getFilePath tableName = Inr filePath \<Longrightarrow> files w' = (files w)(filePath := Rows data) \<Longrightarrow>
   readTable w' tableName = Inr data"
  by (simp add: readTable_def)

lemma readTable_other_table:
  assumes "getFilePath tableName = Inr filePath" and "other \<noteq> tableName"
    and "files w' = (files w)(filePath := content)"
  shows "readTable w' other = readTable w other"
proof (cases "getFilePath other")
  case (Inl e)
  then show ?thesis by (simp add: readTable_def)
next
  case (Inr otherPath)
  with assms have "otherPath \<noteq> filePath"
    by (auto simp: getFilePath_def split: if_splits)
  with Inr assms(3) show ?thesis by (simp add: readTable_def)
qed

lemma readTable_same_files:
  "files w' = files w \<Longrightarrow> readTable w' tableName = readTable w tableName"
  by (simp add: readTable_def split: sum.splits)

lemma hasOwnPropertyCall_builtin:
  "\<not> hasOwnProperty props ''hasOwnProperty'' \<Longrightarrow>
   hasOwnPropertyCall props k = Inr (hasOwnProperty props k)"
  by (simp add: hasOwnPropertyCall_def)

lemma hasOwnPropertyCall_shadowed:
  "hasOwnProperty props ''hasOwnProperty'' \<Longrightarrow> hasOwnPropertyCall props k = Inl NotAFunction"
  by (simp add: hasOwnPropertyCall_def)

lemma insert_db_write:
  assumes "readTable w tableName = Inr old" and "\<not> hasOwnProperty props ''id''"
    and "\<not> hasOwnProperty props ''hasOwnProperty''"
  shows "insert_db w tableName (JObj props) =
    (case failedWrite w (tableName @ ''.json'') of
       None \<Rightarrow>
         (Inr (withId (JObj props) (Rep_uuid (rng w 0))),
          w\<lparr>rng := (\<lambda>n. rng w (Suc n)),
            files := (files w)(tableName @ ''.json'' :=
                       Rows (old @ [withId (JObj props) (Rep_uuid (rng w 0))]))\<rparr>)
     | Some left \<Rightarrow>
         (Inl WriteFailed,
          w\<lparr>rng := (\<lambda>n. rng w (Suc n)),
            files := (files w)(tableName @ ''.json'' := left)\<rparr>))"
  using assms readTable_valid_name [OF assms(1)]
  by (simp add: insert_db_def randomUUID_def writeTable_def setProp_fresh withId_def Let_def
      hasOwnPropertyCall_builtin split: option.splits)

lemma insert_db_unfold:
  assumes "readTable w tableName = Inr old" and "\<not> hasOwnProperty props ''id''"
    and "\<not> hasOwnProperty props ''hasOwnProperty''"
    and "failedWrite w (tableName @ ''.json'') = None"
  shows "insert_db w tableName (JObj props) =
    (Inr (withId (JObj props) (Rep_uuid (rng w 0))),
     w\<lparr>rng := (\<lambda>n. rng w (Suc n)),
       files := (files w)(tableName @ ''.json'' :=
                  Rows (old @ [withId (JObj props) (Rep_uuid (rng w 0))]))\<rparr>)"
  unfolding insert_db_write [OF assms(1-3)] by (simp add: assms(4))

text \<open>
  C3, as the code has it. For a table that reads as \<open>old\<close> and an input object without
  an \<open>id\<close> property (and without an own property named \<open>hasOwnProperty\<close>),
  \<^verbatim>\<open>insert\<close>, when its write of the table file succeeds, returns the input's fields
  plus the next generated id and leaves the table reading as \<open>old\<close> followed by exactly
  that record: the stored records are unchanged and keep their positions, and no other
  table changes. When the write fails, \<^verbatim>\<open>insert\<close> throws the error of the write.
\<close>

theorem insert_db_appends:
  assumes "readTable w tableName = Inr old" and "\<not> hasOwnProperty props ''id''"
    and "\<not> hasOwnProperty props ''hasOwnProperty''"
  shows "case failedWrite w (tableName @ ''.json'') of
      None \<Rightarrow>
        (\<exists>w'. insert_db w tableName (JObj props)
               = (Inr (JObj (props @ [(''id'', JStr (fst (randomUUID w)))])), w') \<and>
           readTable w' tableName
               = Inr (old @ [JObj (props @ [(''id'', JStr (fst (randomUUID w)))])]) \<and>
           (\<forall>other. other \<noteq> tableName \<longrightarrow> readTable w' other = readTable w other))
    | Some left \<Rightarrow>
        (\<exists>w'. insert_db w tableName (JObj props) = (Inl WriteFailed, w') \<and>
           files w' = (files w)(tableName @ ''.json'' := left))"
proof (cases "failedWrite w (tableName @ ''.json'')")
  case None
  let ?r = "JObj (props @ [(''id'', JStr (fst (randomUUID w)))])"
  let ?w' = "w\<lparr>rng := (\<lambda>n. rng w (Suc n)),
       files := (files w)(tableName @ ''.json'' := Rows (old @ [?r]))\<rparr>"
  note path = readTable_valid_name [OF assms(1)]
  have files: "files ?w' = (files w)(tableName @ ''.json'' := Rows (old @ [?r]))"
    by simp
  have "insert_db w tableName (JObj props) = (Inr ?r, ?w')"
    unfolding insert_db_unfold [OF assms None] by (simp add: withId_def randomUUID_def)
  moreover have "readTable ?w' tableName = Inr (old @ [?r])"
    by (rule readTable_after_write [OF path files])
  moreover have "\<forall>other. other \<noteq> tableName \<longrightarrow> readTable ?w' other = readTable w other"
    using readTable_other_table [OF path _ files] by blast
  ultimately have "\<exists>w'. insert_db w tableName (JObj props) = (Inr ?r, w') \<and>
           readTable w' tableName = Inr (old @ [?r]) \<and>
           (\<forall>other. other \<noteq> tableName \<longrightarrow> readTable w' other = readTable w other)"
    by blast
  with None show ?thesis by simp
next
  case (Some left)
  then show ?thesis
    unfolding insert_db_write [OF assms] by simp
qed

theorem insert_db_appends_witness:
  "\<exists>w'. insert_db (exampleWorld (Rows [JNull]) Missing) RESOURCES_TABLE
            (JObj [(''content'', JStr ''text'')])
          = (Inr (JObj [(''content'', JStr ''text''),
                        (''id'', JStr ''00000000-0000-4000-8000-00000000000a'')]), w') \<and>
         readTable w' RESOURCES_TABLE
          = Inr [JNull, JObj [(''content'', JStr ''text''),
                        (''id'', JStr ''00000000-0000-4000-8000-00000000000a'')]]"
proof -
  let ?w = "exampleWorld (Rows [JNull]) Missing"
  have r: "readTable ?w RESOURCES_TABLE = Inr [JNull]"
    by (rule readTable_exampleWorld(2))
  have h: "\<not> hasOwnProperty [(''content'', JStr ''text'')] ''id''"
      "\<not> hasOwnProperty [(''content'', JStr ''text'')] ''hasOwnProperty''"
    by (simp_all add: hasOwnProperty_def)
  have f: "failedWrite ?w (RESOURCES_TABLE @ ''.json'') = None"
    by (simp add: exampleWorld_def)
  have u: "fst (randomUUID ?w) = ''00000000-0000-4000-8000-00000000000a''"
    by (simp add: randomUUID_def exampleWorld_def exampleRng_def Rep_exampleUuid)
  show ?thesis
    using insert_db_appends [OF r h]
    unfolding u f by auto
qed

text \<open>
  The claim as it stands fails where the write of the table file fails (no permission,
  say): \<^verbatim>\<open>_writeTable\<close> throws the error again, \<^verbatim>\<open>insert\<close> returns no record and
  the table holds what it held. It also fails on the input \<^verbatim>\<open>{ hasOwnProperty: 1 }\<close>,
  an object without an \<open>id\<close>: the call \<^verbatim>\<open>data.hasOwnProperty('id')\<close> throws a
  \<^verbatim>\<open>TypeError\<close> and nothing is appended.
\<close>

theorem insert_db_throws:
  "fst (insert_db ((exampleWorld (Rows [JNull]) Missing)
                      \<lparr>failedWrite := (\<lambda>p. Some (Rows [JNull]))\<rparr>)
          RESOURCES_TABLE (JObj [(''content'', JStr ''text'')]))
     = Inl WriteFailed \<and>
   readTable (snd (insert_db ((exampleWorld (Rows [JNull]) Missing)
                                \<lparr>failedWrite := (\<lambda>p. Some (Rows [JNull]))\<rparr>)
                    RESOURCES_TABLE (JObj [(''content'', JStr ''text'')])))
       RESOURCES_TABLE
     = Inr [JNull] \<and>
   insert_db (exampleWorld (Rows [JNull]) Missing) RESOURCES_TABLE
       (JObj [(''hasOwnProperty'', JNum 1)])
     = (Inl NotAFunction, exampleWorld (Rows [JNull]) Missing)"
proof -
  let ?w = "(exampleWorld (Rows [JNull]) Missing)\<lparr>failedWrite := (\<lambda>p. Some (Rows [JNull]))\<rparr>"
  have r: "readTable ?w RESOURCES_TABLE = Inr [JNull]"
    by (simp add: readTable_def getFilePath_tables exampleWorld_def)
  have h: "\<not> hasOwnProperty [(''content'', JStr ''text'')] ''id''"
      "\<not> hasOwnProperty [(''content'', JStr ''text'')] ''hasOwnProperty''"
    by (simp_all add: hasOwnProperty_def)
  let ?w2 = "?w\<lparr>rng := (\<lambda>n. rng ?w (Suc n)),
          files := (files ?w)(RESOURCES_TABLE @ ''.json'' := Rows [JNull])\<rparr>"
  have ins: "insert_db ?w RESOURCES_TABLE (JObj [(''content'', JStr ''text'')]) =
      (Inl WriteFailed, ?w2)"
    unfolding insert_db_write [OF r h] by simp
  have rd: "readTable ?w2 RESOURCES_TABLE = Inr [JNull]"
    by (simp add: readTable_def getFilePath_def RESOURCES_TABLE_def)
  have shadow: "insert_db (exampleWorld (Rows [JNull]) Missing) RESOURCES_TABLE
       (JObj [(''hasOwnProperty'', JNum 1)])
     = (Inl NotAFunction, exampleWorld (Rows [JNull]) Missing)"
    by (simp add: insert_db_def hasOwnPropertyCall_def hasOwnProperty_def)
  show ?thesis
    by (simp only: ins fst_conv snd_conv rd shadow simp_thms)
qed

lemma hasId_withId:
  "\<not> hasOwnProperty props ''id'' \<Longrightarrow> hasId ident (withId (JObj props) u) = (ident = u)"
  by (auto simp: hasId_def withId_def hasOwnProperty_def map_of_eq_None_iff [symmetric]
      map_add_def split: option.splits)

lemma find_append_last:
  "\<forall>x\<in>set xs. \<not> P x \<Longrightarrow> P y \<Longrightarrow> find P (xs @ [y]) = Some y"
  by (induction xs) auto

lemma insert_db_success:
  assumes "insert_db w tableName d = (Inr r, w')" and "readTable w tableName = Inr old"
  obtains props where "d = JObj props" and "\<not> hasOwnProperty props ''id''"
    and "\<not> hasOwnProperty props ''hasOwnProperty''"
    and "failedWrite w (tableName @ ''.json'') = None"
proof -
  from assms(1) obtain props where d: "d = JObj props"
    by (cases d) (simp_all add: insert_db_def)
  from assms(1) d have shadow: "\<not> hasOwnProperty props ''hasOwnProperty''"
    by (auto simp: insert_db_def hasOwnPropertyCall_def split: if_splits)
  with assms(1) d have noid: "\<not> hasOwnProperty props ''id''"
    by (auto simp: insert_db_def hasOwnPropertyCall_def split: if_splits)
  from assms(1) have "failedWrite w (tableName @ ''.json'') = None"
    unfolding d insert_db_write [OF assms(2) noid shadow]
    by (cases "failedWrite w (tableName @ ''.json'')") simp_all
  with d noid shadow that show thesis by blast
qed

text \<open>
  C6. If \<^verbatim>\<open>insert(table, d)\<close> returns the record \<open>r\<close>, whose \<open>id\<close> is the string
  \<open>ident\<close>, and no record stored before has that \<open>id\<close>, then afterwards
  \<^verbatim>\<open>getById(table, ident)\<close> returns \<open>r\<close>.
\<close>

theorem insert_db_getById:
  assumes "insert_db w tableName d = (Inr r, w')"
    and "readTable w tableName = Inr old"
    and "hasId ident r"
    and "\<forall>x\<in>set old. \<not> hasId ident x"
  shows "getById w' tableName ident = Inr (Some r)"
proof -
  from assms(1,2) obtain props where d: "d = JObj props"
    and noid: "\<not> hasOwnProperty props ''id''"
    and shadow: "\<not> hasOwnProperty props ''hasOwnProperty''"
    and wr: "failedWrite w (tableName @ ''.json'') = None"
    by (rule insert_db_success)
  note unfold = insert_db_unfold [OF assms(2) noid shadow wr]
  from assms(1) have r: "r = withId (JObj props) (Rep_uuid (rng w 0))"
    and w': "w' = w\<lparr>rng := (\<lambda>n. rng w (Suc n)),
       files := (files w)(tableName @ ''.json'' := Rows (old @ [r]))\<rparr>"
    unfolding d unfold by auto
  from assms(3) have ident: "ident = Rep_uuid (rng w 0)"
    unfolding r by (simp add: hasId_withId [OF noid])
  then have "ident \<noteq> []"
    by (simp add: Rep_uuid_not_Nil)
  moreover have "readTable w' tableName = Inr (old @ [r])"
    by (rule readTable_after_write [OF readTable_valid_name [OF assms(2)]]) (simp add: w')
  moreover have "find (hasId ident) (old @ [r]) = Some r"
    by (rule find_append_last [OF assms(4) assms(3)])
  ultimately show ?thesis
    by (simp add: getById_def)
qed

theorem insert_db_getById_witness:
  "getById
     (snd (insert_db (exampleWorld (Rows [JObj [(''id'', JStr ''old'')]]) Missing)
             RESOURCES_TABLE (JObj [(''content'', JStr ''text'')])))
     RESOURCES_TABLE ''00000000-0000-4000-8000-00000000000a''
   = Inr (Some (JObj [(''content'', JStr ''text''),
                      (''id'', JStr ''00000000-0000-4000-8000-00000000000a'')]))"
proof -
  let ?w = "exampleWorld (Rows [JObj [(''id'', JStr ''old'')]]) Missing"
  let ?r = "JObj [(''content'', JStr ''text''),
                  (''id'', JStr ''00000000-0000-4000-8000-00000000000a'')]"
  have rt: "readTable ?w RESOURCES_TABLE = Inr [JObj [(''id'', JStr ''old'')]]"
    by (rule readTable_exampleWorld(2))
  have h: "\<not> hasOwnProperty [(''content'', JStr ''text'')] ''id''"
      "\<not> hasOwnProperty [(''content'', JStr ''text'')] ''hasOwnProperty''"
    by (simp_all add: hasOwnProperty_def)
  have f: "failedWrite ?w (RESOURCES_TABLE @ ''.json'') = None"
    by (simp add: exampleWorld_def)
  have ins: "insert_db ?w RESOURCES_TABLE (JObj [(''content'', JStr ''text'')])
      = (Inr ?r, snd (insert_db ?w RESOURCES_TABLE (JObj [(''content'', JStr ''text'')])))"
    unfolding insert_db_unfold [OF rt h f]
    by (simp add: withId_def exampleWorld_def exampleRng_def Rep_exampleUuid)
  have id: "hasId ''00000000-0000-4000-8000-00000000000a'' ?r"
    by (simp add: hasId_def)
  have old: "\<forall>x\<in>set [JObj [(''id'', JStr ''old'')]].
      \<not> hasId ''00000000-0000-4000-8000-00000000000a'' x"
    by (simp add: hasId_def)
  show ?thesis
    by (rule insert_db_getById [OF ins rt id old])
qed

lemma insertManyLoop_unfold:
  assumes "\<forall>d\<in>set dataArray. \<forall>props. d = JObj props \<longrightarrow>
             \<not> hasOwnProperty props ''hasOwnProperty''"
  shows "insertManyLoop dataArray tableData newRecords w =
    (Inr (tableData @ map (\<lambda>k. withId (filter insertable dataArray ! k) (Rep_uuid (rng w k)))
                         [0..<length (filter insertable dataArray)],
          newRecords @ map (\<lambda>k. withId (filter insertable dataArray ! k) (Rep_uuid (rng w k)))
                         [0..<length (filter insertable dataArray)]),
     w\<lparr>rng := (\<lambda>n. rng w (n + length (filter insertable dataArray)))\<rparr>)"
  using assms
proof (induction dataArray arbitrary: tableData newRecords w)
  case Nil
  show ?case by simp
next
  case (Cons d rest)
  then have rest: "\<forall>d\<in>set rest. \<forall>props. d = JObj props \<longrightarrow>
             \<not> hasOwnProperty props ''hasOwnProperty''"
    by simp
  note IH = Cons.IH [OF rest]
  show ?case
  proof (cases "insertable d")
    case False
    from Cons.prems have "insertManyLoop (d # rest) tableData newRecords w =
        insertManyLoop rest tableData newRecords w"
      using False by (cases d) (simp_all add: insertable_def hasOwnPropertyCall_builtin)
    with False show ?thesis by (simp add: IH)
  next
    case True
    then obtain props where d: "d = JObj props" and noid: "\<not> hasOwnProperty props ''id''"
      by (cases d) (simp_all add: insertable_def)
    from Cons.prems d have shadow: "\<not> hasOwnProperty props ''hasOwnProperty''"
      by simp
    let ?w1 = "w\<lparr>rng := (\<lambda>n. rng w (Suc n))\<rparr>"
    let ?r = "withId d (Rep_uuid (rng w 0))"
    have step: "insertManyLoop (d # rest) tableData newRecords w =
        insertManyLoop rest (tableData @ [?r]) (newRecords @ [?r]) ?w1"
      by (simp add: d noid randomUUID_def setProp_fresh withId_def Let_def
          hasOwnPropertyCall_builtin [OF shadow])
    show ?thesis
      unfolding step IH using True
      by (simp add: map_upt_Suc del: upt_Suc)
  qed
qed




section \<open>The chunker\<close>

lemma chunk_count_zero:
  fixes d step :: int
  assumes "0 < step" and "d \<le> 0"
  shows "nat ((d + step - 1) div step) = 0"
proof (cases "d + step - 1 < 0")
  case True
  with assms(1) have "(d + step - 1) div step < 0"
    by (simp add: pos_imp_zdiv_neg_iff)
  then show ?thesis by simp
next
  case False
  with assms have "(d + step - 1) div step = 0"
    by (intro div_pos_pos_trivial) auto
  then show ?thesis by simp
qed

lemma chunk_count_Suc:
  fixes d step :: int
  assumes "0 < step" and "0 < d"
  shows "nat ((d + step - 1) div step) = Suc (nat ((d - step + step - 1) div step))"
proof -
  have "(d + step - 1) div step = (d - 1 + step) div step"
    by (simp add: algebra_simps)
  also have "\<dots> = (d - 1) div step + 1"
    using assms(1) by simp
  finally have eq: "(d + step - 1) div step = (d - 1) div step + 1" .
  have "0 \<le> (d - 1) div step"
    using assms by (simp add: pos_imp_zdiv_nonneg_iff)
  with eq show ?thesis by simp
qed

lemma chunkLoop_returns:
  assumes "overlap < chunkSize"
  shows "chunkLoop val chunkSize overlap i acc =
    Some (acc @ map (\<lambda>k. substring val (i + int k * (chunkSize - overlap))
                              (i + int k * (chunkSize - overlap) + chunkSize))
            [0..<nat ((int (length val) - i + (chunkSize - overlap) - 1)
                        div (chunkSize - overlap))])"
proof (induction "nat (int (length val) - i)" arbitrary: i acc rule: less_induct)
  case less
  let ?step = "chunkSize - overlap"
  from assms have step: "0 < ?step" by simp
  show ?case
  proof (cases "i < int (length val)")
    case False
    then have "nat ((int (length val) - i + ?step - 1) div ?step) = 0"
      by (intro chunk_count_zero [OF step]) simp
    with False show ?thesis
      by (subst chunkLoop.simps) simp
  next
    case True
    have smaller: "nat (int (length val) - (i + ?step)) < nat (int (length val) - i)"
      using True step by simp
    have count: "nat ((int (length val) - i + ?step - 1) div ?step) =
        Suc (nat ((int (length val) - (i + ?step) + ?step - 1) div ?step))"
      using chunk_count_Suc [OF step, of "int (length val) - i"] True
      by (simp add: algebra_simps)
    have "chunkLoop val chunkSize overlap i acc =
        chunkLoop val chunkSize overlap (i + ?step) (acc @ [substring val i (i + chunkSize)])"
      using True by (subst chunkLoop.simps) simp
    also note less [OF smaller]
    finally show ?thesis
      unfolding count
      by (simp add: map_upt_Suc algebra_simps del: upt_Suc)
  qed
qed

lemma substring_take_drop:
  assumes "0 \<le> i" and "0 \<le> chunkSize"
  shows "substring val i (i + chunkSize) = take (nat chunkSize) (drop (nat i) val)"
proof (cases "i < int (length val)")
  case True
  with assms have "substring val i (i + chunkSize) =
      take (nat (min (i + chunkSize) (int (length val)) - i)) (drop (nat i) val)"
    by (simp add: substring_def Let_def min_def max_def)
  also have "\<dots> = take (min (nat chunkSize) (length (drop (nat i) val))) (drop (nat i) val)"
    using True assms by (intro arg_cong2 [where f = take]) (auto simp: min_def)
  also have "\<dots> = take (nat chunkSize) (drop (nat i) val)"
    by (simp add: min_def)
  finally show ?thesis .
next
  case False
  with assms have "int (length val) \<le> i" "int (length val) \<le> i + chunkSize"
      "0 \<le> i + chunkSize"
    by simp_all
  with assms(1) have "substring val i (i + chunkSize) = []"
    by (simp add: substring_def Let_def min.absorb1 min.absorb2 max.absorb1 max.absorb2)
  moreover from False assms(1) have "drop (nat i) val = []"
    by simp
  ultimately show ?thesis by simp
qed

lemma chunkLoop_from_zero:
  assumes "overlap < chunkSize" and "0 \<le> chunkSize"
  shows "chunkLoop val chunkSize overlap 0 [] =
    Some (map (\<lambda>k. take (nat chunkSize) (drop (k * nat (chunkSize - overlap)) val))
            [0..<nat ((int (length val) + (chunkSize - overlap) - 1)
                        div (chunkSize - overlap))])"
proof -
  have "substring val (int k * (chunkSize - overlap))
          (int k * (chunkSize - overlap) + chunkSize)
        = take (nat chunkSize) (drop (k * nat (chunkSize - overlap)) val)" for k
    using assms substring_take_drop [of "int k * (chunkSize - overlap)" chunkSize val]
    by (simp add: nat_mult_distrib)
  then show ?thesis
    unfolding chunkLoop_returns [OF assms(1)] by simp
qed

lemma ceiling_div:
  fixes n step :: int
  assumes "0 < step"
  shows "\<lceil>real_of_int n / real_of_int step\<rceil> = (n + step - 1) div step"
proof -
  define z where "z = (n + step - 1) div step"
  define r where "r = (n + step - 1) mod step"
  have eq: "n + step - 1 = z * step + r"
    by (simp add: z_def r_def)
  have r: "0 \<le> r" "r < step"
    using assms by (simp_all add: r_def)
  from assms have pos: "0 < real_of_int step"
    by simp
  have "\<lceil>real_of_int n / real_of_int step\<rceil> = z"
  proof (rule ceiling_unique)
    have "(z - 1) * step < n"
      using eq r by (simp add: algebra_simps)
    then have "real_of_int ((z - 1) * step) < real_of_int n"
      by (simp only: of_int_less_iff)
    then show "real_of_int z - 1 < real_of_int n / real_of_int step"
      using pos by (simp add: pos_less_divide_eq)
    have "n \<le> z * step"
      using eq r by (simp add: algebra_simps)
    then have "real_of_int n \<le> real_of_int (z * step)"
      by (simp only: of_int_le_iff)
    then show "real_of_int n / real_of_int step \<le> real_of_int z"
      using pos by (simp add: pos_divide_le_eq)
  qed
  then show ?thesis by (simp add: z_def)
qed

lemma default_chunks:
  "chunkLoop val 500 50 0 [] =
     Some (map (\<lambda>k. take 500 (drop (450 * k) val)) [0..<(length val + 449) div 450])"
proof -
  have "nat ((int (length val) + (500 - 50) - 1) div (500 - 50)) = (length val + 449) div 450"
    by (simp add: nat_div_distrib nat_add_distrib)
  then show ?thesis
    using chunkLoop_from_zero [of 50 500 val] by (simp add: mult.commute)
qed

lemma generateEmbeddings_chunks:
  assumes "val \<noteq> []" and "chunkLoop val chunkSize overlap 0 [] = Some (c # cs)"
  shows "generateEmbeddings embedFn val chunkSize overlap = Some (embedLoop embedFn (c # cs) [])"
  using assms by (simp add: generateEmbeddings_def)

text \<open>
  C4, as the code has it. With the defaults the chunker cuts a non-empty text at the
  positions 0, 450, 900, ... below its length: chunk \<open>k\<close> is the substring that starts at
  \<open>450 * k\<close> and has 500 characters, or fewer where the text ends earlier. The tail of a
  chunk from its 450th character on is the beginning of the next chunk, so two
  consecutive chunks share 50 characters, or fewer when the later chunk is shorter.
\<close>

theorem chunker_default:
  assumes "val \<noteq> []"
  shows "\<exists>cs. chunkLoop val 500 50 0 [] = Some cs \<and>
     generateEmbeddings embedFn val 500 50 = Some (embedLoop embedFn cs []) \<and>
     length cs = (length val + 449) div 450 \<and>
     (\<forall>k<length cs. cs ! k = take 500 (drop (450 * k) val) \<and>
                     length (cs ! k) = min 500 (length val - 450 * k)) \<and>
     (\<forall>k. Suc k < length cs \<longrightarrow>
         drop 450 (cs ! k) = take 50 (cs ! Suc k) \<and>
         length (drop 450 (cs ! k)) = min 50 (length val - 450 * Suc k))"
proof -
  let ?cs = "map (\<lambda>k. take 500 (drop (450 * k) val)) [0..<(length val + 449) div 450]"
  have loop: "chunkLoop val 500 50 0 [] = Some ?cs"
    by (rule default_chunks)
  from assms have "0 < (length val + 449) div 450"
    by (cases val) (simp_all add: div_greater_zero_iff)
  then have "?cs \<noteq> []"
    by simp
  then obtain c rest where "?cs = c # rest"
    by (cases ?cs) auto
  with loop assms have gen: "generateEmbeddings embedFn val 500 50 = Some (embedLoop embedFn ?cs [])"
    using generateEmbeddings_chunks [of val 500 50 c rest embedFn] by simp
  have each: "\<forall>k<length ?cs. ?cs ! k = take 500 (drop (450 * k) val) \<and>
                     length (?cs ! k) = min 500 (length val - 450 * k)"
    by (simp add: min.commute)
  have shared: "\<forall>k. Suc k < length ?cs \<longrightarrow>
         drop 450 (?cs ! k) = take 50 (?cs ! Suc k) \<and>
         length (drop 450 (?cs ! k)) = min 50 (length val - 450 * Suc k)"
  proof (intro allI impI)
    fix k
    assume k: "Suc k < length ?cs"
    then have "drop 450 (?cs ! k) = take 50 (drop (450 + 450 * k) val)"
      by (simp add: drop_take)
    moreover from k have "take 50 (?cs ! Suc k) = take 50 (drop (450 + 450 * k) val)"
      by simp
    ultimately show "drop 450 (?cs ! k) = take 50 (?cs ! Suc k) \<and>
         length (drop 450 (?cs ! k)) = min 50 (length val - 450 * Suc k)"
      by simp
  qed
  have len: "length ?cs = (length val + 449) div 450"
    by simp
  show ?thesis
    by (intro exI [of _ ?cs] conjI loop gen len each shared)
qed

theorem chunker_default_witness:
  "\<exists>cs. chunkLoop (replicate 460 (CHR ''x'')) 500 50 0 [] = Some cs \<and>
     generateEmbeddings (\<lambda>t. Some [1]) (replicate 460 (CHR ''x'')) 500 50
       = Some (embedLoop (\<lambda>t. Some [1]) cs []) \<and>
     length cs = 2 \<and>
     length (cs ! 0) = 460 \<and>
     length (cs ! 1) = 10 \<and>
     drop 450 (cs ! 0) = take 50 (cs ! 1)"
proof -
  let ?val = "replicate 460 (CHR ''x'')"
  have "?val \<noteq> []" by simp
  from chunker_default [OF this, of "\<lambda>t. Some [1]"]
  obtain cs where loop: "chunkLoop ?val 500 50 0 [] = Some cs"
    and gen: "generateEmbeddings (\<lambda>t. Some [1]) ?val 500 50 = Some (embedLoop (\<lambda>t. Some [1]) cs [])"
    and len: "length cs = (length ?val + 449) div 450"
    and each: "\<forall>k<length cs. cs ! k = take 500 (drop (450 * k) ?val) \<and>
                     length (cs ! k) = min 500 (length ?val - 450 * k)"
    and shared: "\<forall>k. Suc k < length cs \<longrightarrow>
         drop 450 (cs ! k) = take 50 (cs ! Suc k) \<and>
         length (drop 450 (cs ! k)) = min 50 (length ?val - 450 * Suc k)"
    by blast
  from len have two: "length cs = 2"
    by simp
  from each two have "length (cs ! 0) = min 500 (length ?val - 450 * 0)"
    by simp
  then have first: "length (cs ! 0) = 460"
    by simp
  from each two have "length (cs ! 1) = min 500 (length ?val - 450 * 1)"
    by simp
  then have second: "length (cs ! 1) = 10"
    by simp
  from shared two have overlap: "drop 450 (cs ! 0) = take 50 (cs ! 1)"
    by simp
  show ?thesis
    by (intro exI [of _ cs] conjI loop gen two first second overlap)
qed

text \<open>
  The claim as it stands fails on a text of one character, whose only chunk has length 1,
  and on a text of 460 characters, whose second chunk has 10 characters and so cannot
  share 50 with the first.
\<close>

theorem chunker_short_chunks:
  "chunkLoop ''a'' 500 50 0 [] = Some [''a''] \<and>
   length ''a'' \<noteq> 500 \<and>
   chunkLoop (replicate 460 (CHR ''x'')) 500 50 0 []
     = Some [replicate 460 (CHR ''x''), replicate 10 (CHR ''x'')] \<and>
   length (replicate 10 (CHR ''x'')) < 50"
proof -
  have "[0..<(length ''a'' + 449) div 450] = [0]"
    by simp
  then have a: "chunkLoop ''a'' 500 50 0 [] = Some [''a'']"
    unfolding default_chunks by simp
  have "[0..<(length (replicate 460 (CHR ''x'')) + 449) div 450] = [0, 1]"
    by (simp add: upt_rec)
  then have b: "chunkLoop (replicate 460 (CHR ''x'')) 500 50 0 []
     = Some [replicate 460 (CHR ''x''), replicate 10 (CHR ''x'')]"
    unfolding default_chunks by simp
  from a b show ?thesis by simp
qed

lemma generateEmbeddings_returns:
  "chunkLoop val chunkSize overlap 0 [] = Some cs \<Longrightarrow>
   generateEmbeddings embedFn val chunkSize overlap \<noteq> None"
  by (simp add: generateEmbeddings_def)

lemma chunks_cover:
  assumes "0 \<le> overlap" and "overlap < chunkSize" and "p < length val"
  shows "\<exists>k<nat ((int (length val) + (chunkSize - overlap) - 1) div (chunkSize - overlap)).
           \<exists>j<length (take (nat chunkSize) (drop (k * nat (chunkSize - overlap)) val)).
             int p = int k * (chunkSize - overlap) + int j \<and>
             take (nat chunkSize) (drop (k * nat (chunkSize - overlap)) val) ! j = val ! p"
proof -
  define s where "s = nat (chunkSize - overlap)"
  from assms have s: "0 < s" "int s = chunkSize - overlap" "s \<le> nat chunkSize"
    by (simp_all add: s_def)
  define k where "k = p div s"
  define j where "j = p mod s"
  have p: "p = k * s + j"
    by (simp add: k_def j_def)
  have j: "j < s"
    using s(1) by (simp add: j_def)
  have "int k = int p div int s"
    by (simp add: k_def zdiv_int)
  also have "\<dots> \<le> (int (length val) - 1) div int s"
    using assms(3) s(1) by (intro zdiv_mono1) simp_all
  also have "\<dots> < (int (length val) - 1) div int s + 1"
    by simp
  also have "\<dots> = (int (length val) - 1 + int s) div int s"
    using s(1) by simp
  finally have "int k < (int (length val) + (chunkSize - overlap) - 1) div (chunkSize - overlap)"
    by (simp add: s(2) algebra_simps)
  then have k: "k < nat ((int (length val) + (chunkSize - overlap) - 1)
                      div (chunkSize - overlap))"
    by simp
  have jlen: "j < length (take (nat chunkSize) (drop (k * s) val))"
    using j s(3) assms(3) p by simp
  have "take (nat chunkSize) (drop (k * s) val) ! j = val ! p"
    using j s(3) assms(3) p by simp
  moreover have "int p = int k * (chunkSize - overlap) + int j"
    using p s(2) by (metis of_nat_add of_nat_mult)
  ultimately show ?thesis
    using k jlen unfolding s_def by blast
qed

text \<open>
  C9, as the code has it. Whenever \<open>chunkSize\<close> is greater than \<open>overlap\<close> the chunking
  loop ends, whatever the input, and for an input of length \<open>n\<close> it yields exactly the
  ceiling of \<open>n / (chunkSize - overlap)\<close> chunks. When moreover \<open>overlap\<close> is not
  negative, every character of the input lies in a chunk: the character at position \<open>p\<close>
  is character \<open>j\<close> of the chunk \<open>k\<close> that starts at \<open>k * (chunkSize - overlap)\<close>.
\<close>

theorem chunkLoop_terminates:
  assumes "overlap < chunkSize"
  shows "\<exists>cs. chunkLoop val chunkSize overlap 0 [] = Some cs \<and>
     generateEmbeddings embedFn val chunkSize overlap \<noteq> None \<and>
     int (length cs) = \<lceil>real (length val) / real_of_int (chunkSize - overlap)\<rceil> \<and>
     (0 \<le> overlap \<longrightarrow>
        (\<forall>p<length val. \<exists>k<length cs. \<exists>j<length (cs ! k).
            int p = int k * (chunkSize - overlap) + int j \<and> cs ! k ! j = val ! p))"
proof -
  let ?step = "chunkSize - overlap"
  let ?m = "nat ((int (length val) + ?step - 1) div ?step)"
  let ?cs = "map (\<lambda>k. substring val (0 + int k * ?step) (0 + int k * ?step + chunkSize))
               [0..<?m]"
  from assms have step: "0 < ?step" by simp
  have loop: "chunkLoop val chunkSize overlap 0 [] = Some ?cs"
    using chunkLoop_returns [OF assms, of val 0 "[]"] by simp
  have gen: "generateEmbeddings embedFn val chunkSize overlap \<noteq> None"
    by (rule generateEmbeddings_returns [OF loop])
  have "0 \<le> (int (length val) + ?step - 1) div ?step"
    using step by (simp add: pos_imp_zdiv_nonneg_iff)
  then have "int (length ?cs) = (int (length val) + ?step - 1) div ?step"
    by simp
  also have "\<dots> = \<lceil>real_of_int (int (length val)) / real_of_int ?step\<rceil>"
    by (rule ceiling_div [OF step, symmetric])
  finally have count: "int (length ?cs) = \<lceil>real (length val) / real_of_int ?step\<rceil>"
    by simp
  have cover: "0 \<le> overlap \<longrightarrow>
        (\<forall>p<length val. \<exists>k<length ?cs. \<exists>j<length (?cs ! k).
            int p = int k * ?step + int j \<and> ?cs ! k ! j = val ! p)"
  proof (intro impI allI)
    fix p
    assume ov: "0 \<le> overlap" and p: "p < length val"
    from ov assms have cs: "0 \<le> chunkSize" by simp
    have sub: "substring val (int k * ?step) (int k * ?step + chunkSize)
          = take (nat chunkSize) (drop (k * nat ?step) val)" for k
      using step cs substring_take_drop [of "int k * ?step" chunkSize val]
      by (simp add: nat_mult_distrib)
    from chunks_cover [OF ov assms p]
    obtain k j where k: "k < ?m"
      and j: "j < length (take (nat chunkSize) (drop (k * nat ?step) val))"
      and pos: "int p = int k * ?step + int j"
      and ch: "take (nat chunkSize) (drop (k * nat ?step) val) ! j = val ! p"
      by blast
    from k have nth: "?cs ! k = take (nat chunkSize) (drop (k * nat ?step) val)"
      by (simp add: sub)
    from k have "k < length ?cs" by simp
    moreover from j have "j < length (?cs ! k)" by (simp only: nth)
    moreover from ch have "?cs ! k ! j = val ! p" by (simp only: nth)
    ultimately show "\<exists>k<length ?cs. \<exists>j<length (?cs ! k).
            int p = int k * ?step + int j \<and> ?cs ! k ! j = val ! p"
      using pos by blast
  qed
  show ?thesis
    by (intro exI [of _ ?cs] conjI loop gen count cover)
qed

theorem chunkLoop_terminates_witness:
  "\<exists>cs. chunkLoop ''abcde'' 3 1 0 [] = Some cs \<and>
     int (length cs) = \<lceil>real (length ''abcde'') / real_of_int (3 - 1)\<rceil> \<and>
     (\<exists>k<length cs. \<exists>j<length (cs ! k).
            int 4 = int k * (3 - 1) + int j \<and> cs ! k ! j = ''abcde'' ! 4)"
proof -
  have h: "(1::int) < 3" by simp
  have ov: "(0::int) \<le> 1" by simp
  have p: "(4::nat) < length ''abcde''" by simp
  from chunkLoop_terminates [OF h, of "''abcde''"]
  obtain cs where a: "chunkLoop ''abcde'' 3 1 0 [] = Some cs"
    and b: "int (length cs) = \<lceil>real (length ''abcde'') / real_of_int (3 - 1)\<rceil>"
    and c: "0 \<le> (1::int) \<longrightarrow>
        (\<forall>p<length ''abcde''. \<exists>k<length cs. \<exists>j<length (cs ! k).
            int p = int k * (3 - 1) + int j \<and> cs ! k ! j = ''abcde'' ! p)"
    by blast
  from c ov p have "\<exists>k<length cs. \<exists>j<length (cs ! k).
            int 4 = int k * (3 - 1) + int j \<and> cs ! k ! j = ''abcde'' ! 4"
    by blast
  with a b show ?thesis by blast
qed

text \<open>
  The claim as it stands fails for a negative overlap: with chunks of one character and
  overlap -1 the loop steps by two, and the second character is in no chunk.
\<close>

theorem chunks_leave_gap:
  "(-1 :: int) < 1 \<and>
   chunkLoop ''abc'' 1 (-1) 0 [] = Some [''a'', ''c''] \<and>
   CHR ''b'' \<in> set ''abc'' \<and>
   CHR ''b'' \<notin> set (concat [''a'', ''c''])"
proof -
  have "(-1 :: int) < 1" by simp
  from chunkLoop_returns [OF this, of "''abc''" 0 "[]"]
  have "chunkLoop ''abc'' 1 (-1) 0 [] = Some [''a'', ''c'']"
    by (simp add: substring_def numeral_2_eq_2)
  then show ?thesis by simp
qed

section \<open>Ingestion\<close>

lemma embedLoop_Inr:
  "embedLoop embedFn cs results = Inr ces \<Longrightarrow>
   \<exists>new. ces = results @ new \<and> map fst new = cs \<and>
         (\<forall>ce\<in>set new. embedFn (fst ce) = Some (snd ce))"
proof (induction cs arbitrary: results)
  case Nil
  then show ?case by simp
next
  case (Cons c cs)
  from Cons.prems obtain v where v: "embedFn c = Some v"
    by (cases "embedFn c") simp_all
  with Cons.prems have "embedLoop embedFn cs (results @ [(c, v)]) = Inr ces"
    by simp
  from Cons.IH [OF this] obtain new where "ces = (results @ [(c, v)]) @ new"
    and "map fst new = cs" and "\<forall>ce\<in>set new. embedFn (fst ce) = Some (snd ce)"
    by blast
  with v show ?case
    by (intro exI [of _ "(c, v) # new"]) simp
qed

lemma generateEmbeddings_produced:
  assumes "generateEmbeddings embedFn val chunkSize overlap = Some (Inr ces)" and "ces \<noteq> []"
  shows "chunkLoop val chunkSize overlap 0 [] = Some (map fst ces) \<and>
         (\<forall>ce\<in>set ces. embedFn (fst ce) = Some (snd ce))"
proof -
  from assms have val: "val \<noteq> []"
    by (auto simp: generateEmbeddings_def)
  with assms(1) obtain cs where loop: "chunkLoop val chunkSize overlap 0 [] = Some cs"
    by (cases "chunkLoop val chunkSize overlap 0 []") (simp_all add: generateEmbeddings_def)
  with assms val have "embedLoop embedFn cs [] = Inr ces"
    by (auto simp: generateEmbeddings_def split: if_splits)
  from embedLoop_Inr [OF this] loop show ?thesis
    by auto
qed

lemma insertMany_unfold:
  assumes "readTable w tableName = Inr old" and "dataArray \<noteq> []"
    and "\<forall>d\<in>set dataArray. insertable d"
    and "\<forall>d\<in>set dataArray. \<forall>props. d = JObj props \<longrightarrow>
           \<not> hasOwnProperty props ''hasOwnProperty''"
    and "failedWrite w (tableName @ ''.json'') = None"
  shows "insertMany w tableName (Items dataArray) =
    (Inr (map (\<lambda>k. withId (dataArray ! k) (Rep_uuid (rng w k))) [0..<length dataArray]),
     w\<lparr>rng := (\<lambda>n. rng w (n + length dataArray)),
       files := (files w)(tableName @ ''.json'' :=
          Rows (old @ map (\<lambda>k. withId (dataArray ! k) (Rep_uuid (rng w k)))
                         [0..<length dataArray]))\<rparr>)"
proof -
  from assms(3) have "filter insertable dataArray = dataArray"
    by (simp add: filter_id_conv)
  with assms(1,2,5) readTable_valid_name [OF assms(1)] show ?thesis
    by (simp add: insertMany_def insertManyLoop_unfold [OF assms(4)] writeTable_def)
qed

lemma tables_differ: "EMBEDDINGS_TABLE \<noteq> RESOURCES_TABLE"
  by (simp add: EMBEDDINGS_TABLE_def RESOURCES_TABLE_def)

lemma insertable_embeddingRecordToInsert:
  "insertable (embeddingRecordToInsert (withId (JObj props) u) ce)"
  by (auto simp: insertable_def embeddingRecordToInsert_def withId_def hasOwnProperty_def
      split: option.splits)

lemma plain_embeddingRecordToInsert:
  "embeddingRecordToInsert resource ce = JObj ps \<Longrightarrow> \<not> hasOwnProperty ps ''hasOwnProperty''"
  by (auto simp: embeddingRecordToInsert_def hasOwnProperty_def
      split: json.splits option.splits)

lemma withId_embeddingRecordToInsert:
  "\<not> hasOwnProperty props ''id'' \<Longrightarrow>
   withId (embeddingRecordToInsert (withId (JObj props) u) ce) u' =
     JObj [(''resourceId'', JStr u), (''contentChunk'', JStr (fst ce)),
           (''embedding'', JArr (snd ce)), (''id'', JStr u')]"
  by (auto simp: embeddingRecordToInsert_def withId_def hasOwnProperty_def map_add_def
      map_of_eq_None_iff [symmetric] split: option.splits)

text \<open>
  C5, as the code has it. Take a run of \<^verbatim>\<open>processPdf\<close> in which the text extracted
  from the PDF passes the check for content, the resource record is stored, and chunk
  embeddings are produced. If the write of the embeddings table then succeeds,
  \<^verbatim>\<open>processPdf\<close> has stored exactly one resource record with the full text, stores
  one embedding record per chunk of the text (the chunk's text, the vector the provider
  gave for it, the id of the resource as \<open>resourceId\<close>, and an id of its own), and
  returns the resource with the number of embedding records stored.
\<close>

theorem processPdf_stores:
  assumes "extractText env pdfFilePath = Inr fullText"
    and "insert_db w RESOURCES_TABLE
           (JObj [(''content'', JStr fullText),
                  (''sourceFile'', JStr (basename env pdfFilePath))]) = (Inr resource, w1)"
    and "generateEmbeddings (embed' env) fullText 500 50 = Some (Inr chunkEmbeddings)"
    and "chunkEmbeddings \<noteq> []"
    and "failedWrite w (EMBEDDINGS_TABLE @ ''.json'') = None"
    and "readTable w RESOURCES_TABLE = Inr oldResources"
    and "readTable w EMBEDDINGS_TABLE = Inr oldEmbeddings"
  shows "\<exists>w'. processPdf env w pdfFilePath =
      Some (Inr (resource, length chunkEmbeddings), w') \<and>
    resource = JObj [(''content'', JStr fullText),
                     (''sourceFile'', JStr (basename env pdfFilePath)),
                     (''id'', JStr (Rep_uuid (rng w 0)))] \<and>
    readTable w' RESOURCES_TABLE = Inr (oldResources @ [resource]) \<and>
    readTable w' EMBEDDINGS_TABLE =
      Inr (oldEmbeddings @
           map (\<lambda>k. JObj [(''resourceId'', JStr (Rep_uuid (rng w 0))),
                          (''contentChunk'', JStr (fst (chunkEmbeddings ! k))),
                          (''embedding'', JArr (snd (chunkEmbeddings ! k))),
                          (''id'', JStr (Rep_uuid (rng w (Suc k))))])
               [0..<length chunkEmbeddings]) \<and>
    chunkLoop fullText 500 50 0 [] = Some (map fst chunkEmbeddings) \<and>
    (\<forall>ce\<in>set chunkEmbeddings. embed' env (fst ce) = Some (snd ce))"
proof -
  let ?props = "[(''content'', JStr fullText), (''sourceFile'', JStr (basename env pdfFilePath))]"
  let ?u = "Rep_uuid (rng w 0)"
  let ?ces = chunkEmbeddings
  let ?data = "map (embeddingRecordToInsert resource) ?ces"
  let ?new = "map (\<lambda>k. withId (?data ! k) (Rep_uuid (rng w1 k))) [0..<length ?data]"
  let ?w2 = "w1\<lparr>rng := (\<lambda>n. rng w1 (n + length ?data)),
       files := (files w1)(EMBEDDINGS_TABLE @ ''.json'' := Rows (oldEmbeddings @ ?new))\<rparr>"
  have noid: "\<not> hasOwnProperty ?props ''id''"
    and plain: "\<not> hasOwnProperty ?props ''hasOwnProperty''"
    by (simp_all add: hasOwnProperty_def)
  from assms(2) assms(6) obtain ps where "JObj ?props = JObj ps"
    and wr: "failedWrite w (RESOURCES_TABLE @ ''.json'') = None"
    by (rule insert_db_success)
  note unfold = insert_db_unfold [OF assms(6) noid plain wr]
  from assms(2) have res: "resource = withId (JObj ?props) ?u"
    and w1: "w1 = w\<lparr>rng := (\<lambda>n. rng w (Suc n)),
       files := (files w)(RESOURCES_TABLE @ ''.json'' := Rows (oldResources @ [resource]))\<rparr>"
    unfolding unfold by auto
  note pathR = readTable_valid_name [OF assms(6)]
  note pathE = readTable_valid_name [OF assms(7)]
  have files1: "files w1 = (files w)(RESOURCES_TABLE @ ''.json'' := Rows (oldResources @ [resource]))"
    by (simp add: w1)
  have readE1: "readTable w1 EMBEDDINGS_TABLE = Inr oldEmbeddings"
    using readTable_other_table [OF pathR tables_differ files1] assms(7) by simp
  have readR1: "readTable w1 RESOURCES_TABLE = Inr (oldResources @ [resource])"
    by (rule readTable_after_write [OF pathR files1])
  have wr1: "failedWrite w1 (EMBEDDINGS_TABLE @ ''.json'') = None"
    using assms(5) by (simp add: w1)
  from assms(4) have data: "?data \<noteq> []"
    by simp
  have all: "\<forall>d\<in>set ?data. insertable d"
    by (auto simp: res insertable_embeddingRecordToInsert)
  have shadow: "\<forall>d\<in>set ?data. \<forall>ps. d = JObj ps \<longrightarrow> \<not> hasOwnProperty ps ''hasOwnProperty''"
    by (auto dest: plain_embeddingRecordToInsert)
  have many: "insertMany w1 EMBEDDINGS_TABLE (Items ?data) = (Inr ?new, ?w2)"
    by (rule insertMany_unfold [OF readE1 data all shadow wr1])
  have "processPdf env w pdfFilePath =
      (case insertMany w1 EMBEDDINGS_TABLE (Items ?data) of
         (Inl e, w2) \<Rightarrow> Some (Inl e, w2)
       | (Inr insertedEmbeddings, w2) \<Rightarrow>
           Some (Inr (resource, length insertedEmbeddings), w2))"
    using assms(1-4) by (simp add: processPdf_def del: map_map)
  then have r1: "processPdf env w pdfFilePath = Some (Inr (resource, length ?ces), ?w2)"
    unfolding many by simp
  have files2: "files ?w2 = (files w1)(EMBEDDINGS_TABLE @ ''.json'' := Rows (oldEmbeddings @ ?new))"
    by simp
  have readE2: "readTable ?w2 EMBEDDINGS_TABLE = Inr (oldEmbeddings @ ?new)"
    by (rule readTable_after_write [OF pathE files2])
  have r3: "readTable ?w2 RESOURCES_TABLE = Inr (oldResources @ [resource])"
    using readTable_other_table [OF pathE tables_differ [symmetric] files2] readR1 by simp
  have rng1: "rng w1 k = rng w (Suc k)" for k
    by (simp add: w1)
  have new: "?new = map (\<lambda>k. JObj [(''resourceId'', JStr ?u),
                          (''contentChunk'', JStr (fst (?ces ! k))),
                          (''embedding'', JArr (snd (?ces ! k))),
                          (''id'', JStr (Rep_uuid (rng w (Suc k))))])
               [0..<length ?ces]"
    unfolding res by (simp add: withId_embeddingRecordToInsert [OF noid] rng1)
  have r2: "resource = JObj [(''content'', JStr fullText),
                       (''sourceFile'', JStr (basename env pdfFilePath)),
                       (''id'', JStr ?u)]"
    by (simp add: res withId_def)
  have r4: "readTable ?w2 EMBEDDINGS_TABLE =
      Inr (oldEmbeddings @
           map (\<lambda>k. JObj [(''resourceId'', JStr ?u),
                          (''contentChunk'', JStr (fst (?ces ! k))),
                          (''embedding'', JArr (snd (?ces ! k))),
                          (''id'', JStr (Rep_uuid (rng w (Suc k))))])
               [0..<length ?ces])"
    using readE2 by (simp only: new)
  note produced = generateEmbeddings_produced [OF assms(3,4)]
  show ?thesis
    by (rule exI [of _ ?w2])
      (intro conjI r1 r2 r3 r4 produced [THEN conjunct1] produced [THEN conjunct2])
qed

lemma extractText_exampleServices:
  "extractText (exampleServices v ''abc'') p = Inr ''abc''"
  by (simp add: extractText_def exampleServices_def trim_def isWhiteSpace_def)

lemma generateEmbeddings_exampleServices:
  "generateEmbeddings (embed' (exampleServices [1] t)) ''abc'' 500 50
     = Some (Inr [(''abc'', [1])])"
proof -
  have "[0..<(length ''abc'' + 449) div 450] = [0]"
    by simp
  then have "chunkLoop ''abc'' 500 50 0 [] = Some [''abc'']"
    unfolding default_chunks by simp
  then show ?thesis
    by (simp add: generateEmbeddings_def exampleServices_def)
qed

theorem processPdf_stores_witness:
  "\<exists>w'. processPdf (exampleServices [1] ''abc'') (exampleWorld (Rows []) (Rows [])) ''doc.pdf'' =
      Some (Inr (JObj [(''content'', JStr ''abc''), (''sourceFile'', JStr ''doc.pdf''),
                       (''id'', JStr ''00000000-0000-4000-8000-00000000000a'')], 1), w') \<and>
    readTable w' RESOURCES_TABLE =
      Inr [JObj [(''content'', JStr ''abc''), (''sourceFile'', JStr ''doc.pdf''),
                 (''id'', JStr ''00000000-0000-4000-8000-00000000000a'')]] \<and>
    readTable w' EMBEDDINGS_TABLE =
      Inr [JObj [(''resourceId'', JStr ''00000000-0000-4000-8000-00000000000a''),
                 (''contentChunk'', JStr ''abc''), (''embedding'', JArr [1]),
                 (''id'', JStr ''00000000-0000-4000-8000-00000000000b'')]]"
proof -
  let ?env = "exampleServices [1] ''abc''"
  let ?w = "exampleWorld (Rows []) (Rows [])"
  let ?props = "[(''content'', JStr ''abc''), (''sourceFile'', JStr (basename ?env ''doc.pdf''))]"
  let ?res = "JObj [(''content'', JStr ''abc''), (''sourceFile'', JStr ''doc.pdf''),
                    (''id'', JStr ''00000000-0000-4000-8000-00000000000a'')]"
  have rR: "readTable ?w RESOURCES_TABLE = Inr []"
    by (rule readTable_exampleWorld(2))
  have rE: "readTable ?w EMBEDDINGS_TABLE = Inr []"
    by (rule readTable_exampleWorld(1))
  have h: "\<not> hasOwnProperty ?props ''id''" "\<not> hasOwnProperty ?props ''hasOwnProperty''"
    by (simp_all add: hasOwnProperty_def)
  have f: "failedWrite ?w (RESOURCES_TABLE @ ''.json'') = None"
      "failedWrite ?w (EMBEDDINGS_TABLE @ ''.json'') = None"
    by (simp_all add: exampleWorld_def)
  have u: "Rep_uuid (rng ?w 0) = ''00000000-0000-4000-8000-00000000000a''"
      "Rep_uuid (rng ?w (Suc 0)) = ''00000000-0000-4000-8000-00000000000b''"
    by (simp_all add: exampleWorld_def exampleRng_def Rep_exampleUuid)
  have ins: "insert_db ?w RESOURCES_TABLE (JObj ?props)
      = (Inr ?res, snd (insert_db ?w RESOURCES_TABLE (JObj ?props)))"
    unfolding insert_db_unfold [OF rR h f(1)]
    by (simp add: withId_def u exampleServices_def)
  have ne: "[(''abc'', [1::real])] \<noteq> []"
    by simp
  from processPdf_stores [OF extractText_exampleServices ins
      generateEmbeddings_exampleServices ne f(2) rR rE]
  show ?thesis
    by (simp add: u) blast
qed

text \<open>
  The claim as it stands fails where the embedding records cannot be written (the file of
  the embeddings table is read-only, say). In the run below the text \<open>abc\<close> is extracted,
  the resource record is stored, the provider embeds the one chunk, and then
  \<^verbatim>\<open>insertMany\<close> throws the error of its write: no embedding record is stored and
  \<^verbatim>\<open>processPdf\<close> returns nothing.
\<close>

theorem processPdf_write_fails:
  "extractText (exampleServices [1] ''abc'') ''doc.pdf'' = Inr ''abc'' \<and>
   generateEmbeddings (embed' (exampleServices [1] ''abc'')) ''abc'' 500 50
     = Some (Inr [(''abc'', [1])]) \<and>
   map_option fst
     (processPdf (exampleServices [1] ''abc'')
        ((exampleWorld (Rows []) (Rows []))
           \<lparr>failedWrite := (\<lambda>p. if p = ''embeddings.json'' then Some (Rows []) else None)\<rparr>)
        ''doc.pdf'')
     = Some (Inl WriteFailed) \<and>
   map_option (\<lambda>r. readTable (snd r) RESOURCES_TABLE)
     (processPdf (exampleServices [1] ''abc'')
        ((exampleWorld (Rows []) (Rows []))
           \<lparr>failedWrite := (\<lambda>p. if p = ''embeddings.json'' then Some (Rows []) else None)\<rparr>)
        ''doc.pdf'')
     = Some (Inr [JObj [(''content'', JStr ''abc''), (''sourceFile'', JStr ''doc.pdf''),
                        (''id'', JStr ''00000000-0000-4000-8000-00000000000a'')]]) \<and>
   map_option (\<lambda>r. readTable (snd r) EMBEDDINGS_TABLE)
     (processPdf (exampleServices [1] ''abc'')
        ((exampleWorld (Rows []) (Rows []))
           \<lparr>failedWrite := (\<lambda>p. if p = ''embeddings.json'' then Some (Rows []) else None)\<rparr>)
        ''doc.pdf'')
     = Some (Inr [])"
proof -
  let ?env = "exampleServices [1] ''abc''"
  let ?w = "(exampleWorld (Rows []) (Rows []))
           \<lparr>failedWrite := (\<lambda>p. if p = ''embeddings.json'' then Some (Rows []) else None)\<rparr>"
  let ?props = "[(''content'', JStr ''abc''), (''sourceFile'', JStr (basename ?env ''doc.pdf''))]"
  let ?res = "JObj [(''content'', JStr ''abc''), (''sourceFile'', JStr ''doc.pdf''),
                    (''id'', JStr ''00000000-0000-4000-8000-00000000000a'')]"
  let ?w1 = "?w\<lparr>rng := (\<lambda>n. rng ?w (Suc n)),
       files := (files ?w)(''resources.json'' := Rows [?res])\<rparr>"
  let ?w2 = "?w1\<lparr>rng := (\<lambda>n. rng ?w1 (Suc n)),
       files := (files ?w1)(''embeddings.json'' := Rows [])\<rparr>"
  have rR: "readTable ?w RESOURCES_TABLE = Inr []"
    by (simp add: readTable_def getFilePath_tables exampleWorld_def)
  have h: "\<not> hasOwnProperty ?props ''id''" "\<not> hasOwnProperty ?props ''hasOwnProperty''"
    by (simp_all add: hasOwnProperty_def)
  have f: "failedWrite ?w (RESOURCES_TABLE @ ''.json'') = None"
    by (simp add: RESOURCES_TABLE_def)
  have u: "Rep_uuid (rng (exampleWorld (Rows []) (Rows [])) 0)
      = ''00000000-0000-4000-8000-00000000000a''"
    by (simp add: exampleWorld_def exampleRng_def Rep_exampleUuid)
  have ins: "insert_db ?w RESOURCES_TABLE (JObj ?props) = (Inr ?res, ?w1)"
    unfolding insert_db_unfold [OF rR h f]
    by (simp add: withId_def u exampleServices_def RESOURCES_TABLE_def)
  have many: "insertMany ?w1 EMBEDDINGS_TABLE
        (Items (map (embeddingRecordToInsert ?res) [(''abc'', [1])]))
      = (Inl WriteFailed, ?w2)"
    by (simp add: insertMany_def readTable_def writeTable_def getFilePath_tables
        exampleWorld_def hasOwnPropertyCall_def hasOwnProperty_def randomUUID_def Let_def
        embeddingRecordToInsert_def)
  have ne: "(length [(''abc'', [1::real])] = 0) = False"
    by simp
  have run: "processPdf ?env ?w ''doc.pdf'' = Some (Inl WriteFailed, ?w2)"
    by (simp only: processPdf_def extractText_exampleServices ins
        generateEmbeddings_exampleServices many ne if_False
        sum.case prod.case option.case)
  have rdR: "readTable ?w2 RESOURCES_TABLE = Inr [?res]"
    by (simp add: readTable_def getFilePath_tables)
  have rdE: "readTable ?w2 EMBEDDINGS_TABLE = Inr []"
    by (simp add: readTable_def getFilePath_tables)
  show ?thesis
    by (simp only: run extractText_exampleServices generateEmbeddings_exampleServices
        option.map fst_conv snd_conv rdR rdE simp_thms)
qed

end
